theory Spec2Isabelle
  imports
    Complex_Main
    "HOL-Library.Char_ord"
    "HOL-Library.List_Lexorder"
    "HOL-Library.Product_Lexorder"
    "HOL-Library.Multiset"
begin

section \<open>Cellule Dashboard: the data layer of app.py\<close>

text \<open>
  The program keeps three SQLite tables (members, attendance, prayers) and a Streamlit
  script that is run from top to bottom at every interaction: it calls \<open>init_db\<close> and
  then renders one page, whose forms and buttons call the core actions.

  Conventions of the embedding.
  \<^item> A Python \<open>str\<close> is a \<open>string\<close>: a list of characters with code points below 256.
    SQLite compares TEXT values bytewise, which on such strings is the lexicographic
    order of \<open>char list\<close>.
  \<^item> An INTEGER column holds a \<open>nat\<close>: the program only ever stores row ids and the
    flags 0 and 1.
  \<^item> A \<open>datetime.date\<close> is the triple (year, month, day), compared lexicographically as
    Python compares dates.
  \<^item> An SQL statement is a value of \<open>statement\<close>; \<open>execute\<close> gives each statement
    the effect SQLite gives it. A missing table raises \<open>sqlite3.OperationalError\<close>,
    which is the \<open>Inl\<close> branch of every result.
  \<^item> pandas computes means in double precision; the embedding computes them exactly,
    as rational numbers. The rounding of the displayed percentage is not modelled.
\<close>

subsection \<open>Decimal numerals and dates\<close>

type_synonym date = "nat \<times> nat \<times> nat"

definition digit :: "nat \<Rightarrow> char" where
  "digit n = char_of (48 + n)"

fun str_of_nat :: "nat \<Rightarrow> string" where
  "str_of_nat n = (if n < 10 then [digit n] else str_of_nat (n div 10) @ [digit (n mod 10)])"

declare str_of_nat.simps [simp del]

definition zfill :: "nat \<Rightarrow> string \<Rightarrow> string" where
  "zfill w s = replicate (w - length s) (CHR ''0'') @ s"

text \<open>\<open>date.isoformat()\<close>: the format \<open>%04d-%02d-%02d\<close>.\<close>

definition isoformat :: "date \<Rightarrow> string" where
  "isoformat d = (case d of (y, m, dd) \<Rightarrow>
     zfill 4 (str_of_nat y) @ ''-'' @ zfill 2 (str_of_nat m) @ ''-'' @ zfill 2 (str_of_nat dd))"

definition is_digit :: "char \<Rightarrow> bool" where
  "is_digit c \<longleftrightarrow> CHR ''0'' \<le> c \<and> c \<le> CHR ''9''"

definition digit_val :: "char \<Rightarrow> nat" where
  "digit_val c = of_char c - 48"

definition nat_of_str :: "string \<Rightarrow> nat" where
  "nat_of_str s = foldl (\<lambda>a c. 10 * a + digit_val c) 0 s"

definition is_leap :: "nat \<Rightarrow> bool" where
  "is_leap y \<longleftrightarrow> y mod 4 = 0 \<and> (y mod 100 \<noteq> 0 \<or> y mod 400 = 0)"

definition days_in_month :: "nat \<Rightarrow> nat \<Rightarrow> nat" where
  "days_in_month y m =
     (if m = 2 then (if is_leap y then 29 else 28)
      else if m = 4 \<or> m = 6 \<or> m = 9 \<or> m = 11 then 30 else 31)"

text \<open>
  The attendance dates are stored as the text \<open>attend_date.isoformat()\<close> and read back
  with \<open>pd.to_datetime\<close>. \<open>parse_date\<close> reads exactly that format (ten characters,
  a calendar date that exists); on any other text it gives \<open>None\<close>, the model of
  \<open>pd.to_datetime\<close> raising.
\<close>

definition parse_date :: "string \<Rightarrow> date option" where
  "parse_date s =
     (if length s = 10 \<and> s ! 4 = CHR ''-'' \<and> s ! 7 = CHR ''-''
         \<and> list_all is_digit (take 4 s)
         \<and> list_all is_digit (take 2 (drop 5 s))
         \<and> list_all is_digit (drop 8 s)
      then
        (let y = nat_of_str (take 4 s);
             m = nat_of_str (take 2 (drop 5 s));
             d = nat_of_str (drop 8 s)
         in if 1 \<le> y \<and> 1 \<le> m \<and> m \<le> 12 \<and> 1 \<le> d \<and> d \<le> days_in_month y m
            then Some (y, m, d) else None)
      else None)"

text \<open>Days since 1970-01-01 of a calendar date (proleptic Gregorian calendar).\<close>

definition days_from_civil :: "date \<Rightarrow> int" where
  "days_from_civil d = (case d of (y, m, dd) \<Rightarrow>
     (let y' = (if m \<le> 2 then int y - 1 else int y);
          era = y' div 400;
          yoe = y' - era * 400;
          mp = (if m > 2 then int m - 3 else int m + 9);
          doy = (153 * mp + 2) div 5 + int dd - 1;
          doe = yoe * 365 + yoe div 4 - yoe div 100 + doy
      in era * 146097 + doe - 719468))"

text \<open>A \<open>pd.Timestamp\<close> is a number of nanoseconds since the epoch.\<close>

definition ns_per_day :: int where
  "ns_per_day = 86400000000000"

definition to_datetime :: "string \<Rightarrow> int option" where
  "to_datetime s = map_option (\<lambda>d. days_from_civil d * ns_per_day) (parse_date s)"

subsection \<open>Schema and storage\<close>

datatype error = OperationalError string | ValueError string

record member =
  m_id :: nat
  m_name :: string
  m_phone :: string
  m_email :: string
  m_role :: string
  m_joined :: string

record attendance_row =
  a_id :: nat
  a_member_id :: nat
  a_attend_date :: string
  a_present :: nat
  a_note :: string

record prayer =
  p_id :: nat
  p_requester :: string
  p_content :: string
  p_created :: string
  p_status :: string

text \<open>
  A table is its rows in rowid order and the counter that \<open>sqlite_sequence\<close> keeps for an
  AUTOINCREMENT key.
\<close>

record 'r table =
  rows :: "'r list"
  seq :: nat

record db =
  members :: "member table option"
  attendance :: "attendance_row table option"
  prayers :: "prayer table option"

definition empty_table :: "'r table" where
  "empty_table = \<lparr>rows = [], seq = 0\<rparr>"

definition create_table_if_not_exists :: "'r table option \<Rightarrow> 'r table option" where
  "create_table_if_not_exists t = (case t of None \<Rightarrow> Some empty_table | Some x \<Rightarrow> Some x)"

definition init_db :: "db \<Rightarrow> db" where
  "init_db d =
     \<lparr>members = create_table_if_not_exists (members d),
      attendance = create_table_if_not_exists (attendance d),
      prayers = create_table_if_not_exists (prayers d)\<rparr>"

text \<open>
  AUTOINCREMENT: the new rowid is one more than the largest rowid the table has ever held.
\<close>

definition next_rowid :: "nat list \<Rightarrow> nat \<Rightarrow> nat" where
  "next_rowid ids s = Suc (max s (fold max ids 0))"

datatype statement =
    InsertMember string string string string string
  | InsertAttendance nat string nat string
  | InsertPrayer string string string string
  | UpdatePrayerStatus string nat
  | DropAttendance
  | DropPrayers
  | DropMembers

fun execute :: "statement \<Rightarrow> db \<Rightarrow> error + db" where
  "execute (InsertMember name phone email role joined) d =
     (case members d of
        None \<Rightarrow> Inl (OperationalError ''no such table: members'')
      | Some t \<Rightarrow>
          (let i = next_rowid (map m_id (rows t)) (seq t)
           in Inr (d\<lparr>members := Some \<lparr>rows = rows t @
                 [\<lparr>m_id = i, m_name = name, m_phone = phone, m_email = email,
                   m_role = role, m_joined = joined\<rparr>], seq = i\<rparr>\<rparr>)))"
| "execute (InsertAttendance member_id attend_date present note) d =
     (case attendance d of
        None \<Rightarrow> Inl (OperationalError ''no such table: attendance'')
      | Some t \<Rightarrow>
          (let i = next_rowid (map a_id (rows t)) (seq t)
           in Inr (d\<lparr>attendance := Some \<lparr>rows = rows t @
                 [\<lparr>a_id = i, a_member_id = member_id, a_attend_date = attend_date,
                   a_present = present, a_note = note\<rparr>], seq = i\<rparr>\<rparr>)))"
| "execute (InsertPrayer requester content created status) d =
     (case prayers d of
        None \<Rightarrow> Inl (OperationalError ''no such table: prayers'')
      | Some t \<Rightarrow>
          (let i = next_rowid (map p_id (rows t)) (seq t)
           in Inr (d\<lparr>prayers := Some \<lparr>rows = rows t @
                 [\<lparr>p_id = i, p_requester = requester, p_content = content,
                   p_created = created, p_status = status\<rparr>], seq = i\<rparr>\<rparr>)))"
| "execute (UpdatePrayerStatus status prayer_id) d =
     (case prayers d of
        None \<Rightarrow> Inl (OperationalError ''no such table: prayers'')
      | Some t \<Rightarrow>
          Inr (d\<lparr>prayers := Some (t\<lparr>rows :=
                 map (\<lambda>r. if p_id r = prayer_id then r\<lparr>p_status := status\<rparr> else r) (rows t)\<rparr>)\<rparr>))"
| "execute DropAttendance d = Inr (d\<lparr>attendance := None\<rparr>)"
| "execute DropPrayers d = Inr (d\<lparr>prayers := None\<rparr>)"
| "execute DropMembers d = Inr (d\<lparr>members := None\<rparr>)"

subsection \<open>Core actions\<close>

text \<open>The first argument of \<open>add_member\<close> and \<open>add_prayer\<close> is the value of \<open>date.today()\<close>.\<close>

definition add_member :: "date \<Rightarrow> string \<Rightarrow> string \<Rightarrow> string \<Rightarrow> string \<Rightarrow> db \<Rightarrow> error + db" where
  "add_member today name phone email role d =
     execute (InsertMember name phone email role (isoformat today)) d"

definition add_attendance :: "nat \<Rightarrow> string \<Rightarrow> bool \<Rightarrow> string \<Rightarrow> db \<Rightarrow> error + db" where
  "add_attendance member_id attend_date present note d =
     execute (InsertAttendance member_id attend_date (if present then 1 else 0) note) d"

definition add_prayer :: "date \<Rightarrow> string \<Rightarrow> string \<Rightarrow> db \<Rightarrow> error + db" where
  "add_prayer today requester content d =
     execute (InsertPrayer requester content (isoformat today) ''open'') d"

definition update_prayer_status :: "nat \<Rightarrow> string \<Rightarrow> db \<Rightarrow> error + db" where
  "update_prayer_status prayer_id status d = execute (UpdatePrayerStatus status prayer_id) d"

subsection \<open>Views\<close>

definition get_members_df :: "db \<Rightarrow> error + member list" where
  "get_members_df d =
     (case members d of
        None \<Rightarrow> Inl (OperationalError ''no such table: members'')
      | Some t \<Rightarrow> Inr (rows t))"

record attendance_view =
  v_id :: nat
  v_member_id :: nat
  v_member_name :: "string option"
  v_attend_date :: string
  v_present :: nat
  v_note :: string

definition view_row :: "attendance_row \<Rightarrow> string option \<Rightarrow> attendance_view" where
  "view_row a n =
     \<lparr>v_id = a_id a, v_member_id = a_member_id a, v_member_name = n,
      v_attend_date = a_attend_date a, v_present = a_present a, v_note = a_note a\<rparr>"

text \<open>
  \<open>attendance a LEFT JOIN members m ON a.member_id = m.id\<close>: one row for each member
  that matches, and one row with a NULL name when none does.
\<close>

definition left_join_members :: "member list \<Rightarrow> attendance_row \<Rightarrow> attendance_view list" where
  "left_join_members ms a =
     (case filter (\<lambda>m. m_id m = a_member_id a) ms of
        [] \<Rightarrow> [view_row a None]
      | m # ms' \<Rightarrow> map (\<lambda>m. view_row a (Some (m_name m))) (m # ms'))"

definition get_attendance_df :: "db \<Rightarrow> error + attendance_view list" where
  "get_attendance_df d =
     (case attendance d of
        None \<Rightarrow> Inl (OperationalError ''no such table: attendance'')
      | Some ta \<Rightarrow>
          (case members d of
             None \<Rightarrow> Inl (OperationalError ''no such table: members'')
           | Some tm \<Rightarrow> Inr (concat (map (left_join_members (rows tm)) (rows ta)))))"

text \<open>
  \<open>ORDER BY created DESC\<close>. SQLite's sorter is a merge sort that keeps rows with equal
  keys in the order in which the scan delivered them, which is rowid order here; the
  embedding is the insertion sort with the same result.
\<close>

fun insert_desc :: "prayer \<Rightarrow> prayer list \<Rightarrow> prayer list" where
  "insert_desc x [] = [x]"
| "insert_desc x (y # ys) =
     (if p_created y \<le> p_created x then x # y # ys else y # insert_desc x ys)"

definition order_by_created_desc :: "prayer list \<Rightarrow> prayer list" where
  "order_by_created_desc rs = foldr insert_desc rs []"

definition get_prayers_df :: "db \<Rightarrow> error + prayer list" where
  "get_prayers_df d =
     (case prayers d of
        None \<Rightarrow> Inl (OperationalError ''no such table: prayers'')
      | Some t \<Rightarrow> Inr (order_by_created_desc (rows t)))"

subsection \<open>CSV export\<close>

text \<open>
  A DataFrame, as far as \<open>to_csv\<close> looks at it: the column names and the cells of each
  row. A NULL of the database is a missing value, written as the empty field.
\<close>

datatype cell = IntCell nat | TextCell string | NullCell

record frame =
  columns :: "string list"
  cells :: "cell list list"

definition members_columns :: "string list" where
  "members_columns = [''id'', ''name'', ''phone'', ''email'', ''role'', ''joined'']"

definition member_cells :: "member \<Rightarrow> cell list" where
  "member_cells m =
     [IntCell (m_id m), TextCell (m_name m), TextCell (m_phone m), TextCell (m_email m),
      TextCell (m_role m), TextCell (m_joined m)]"

definition members_frame :: "member list \<Rightarrow> frame" where
  "members_frame ms = \<lparr>columns = members_columns, cells = map member_cells ms\<rparr>"

definition attendance_columns :: "string list" where
  "attendance_columns =
     [''id'', ''member_id'', ''member_name'', ''attend_date'', ''present'', ''note'']"

definition attendance_cells :: "attendance_view \<Rightarrow> cell list" where
  "attendance_cells v =
     [IntCell (v_id v), IntCell (v_member_id v),
      (case v_member_name v of None \<Rightarrow> NullCell | Some n \<Rightarrow> TextCell n),
      TextCell (v_attend_date v), IntCell (v_present v), TextCell (v_note v)]"

definition attendance_frame :: "attendance_view list \<Rightarrow> frame" where
  "attendance_frame vs = \<lparr>columns = attendance_columns, cells = map attendance_cells vs\<rparr>"

definition prayers_columns :: "string list" where
  "prayers_columns = [''id'', ''requester'', ''content'', ''created'', ''status'']"

definition prayer_cells :: "prayer \<Rightarrow> cell list" where
  "prayer_cells p =
     [IntCell (p_id p), TextCell (p_requester p), TextCell (p_content p),
      TextCell (p_created p), TextCell (p_status p)]"

definition prayers_frame :: "prayer list \<Rightarrow> frame" where
  "prayers_frame ps = \<lparr>columns = prayers_columns, cells = map prayer_cells ps\<rparr>"

definition cell_text :: "cell \<Rightarrow> string" where
  "cell_text c = (case c of IntCell n \<Rightarrow> str_of_nat n | TextCell s \<Rightarrow> s | NullCell \<Rightarrow> [])"

abbreviation dquote :: char where
  "dquote \<equiv> CHR 0x22"

abbreviation comma :: char where
  "comma \<equiv> CHR 0x2C"

abbreviation newline :: char where
  "newline \<equiv> CHR 0x0A"

abbreviation carriage_return :: char where
  "carriage_return \<equiv> CHR 0x0D"

text \<open>
  \<open>DataFrame.to_csv(index=False)\<close> writes through \<open>csv.writer\<close> with minimal quoting: a
  field is quoted when it holds the delimiter, the quote character or a line break, and
  quote characters inside it are doubled. Lines end with \<open>os.linesep\<close>, a line feed on
  a POSIX system. A line that would be empty although it has a field is written as a
  pair of quotes.
\<close>

definition special :: "char \<Rightarrow> bool" where
  "special c \<longleftrightarrow> c = comma \<or> c = dquote \<or> c = newline \<or> c = carriage_return"

definition needs_quote :: "string \<Rightarrow> bool" where
  "needs_quote s = list_ex special s"

fun double_quotes :: "string \<Rightarrow> string" where
  "double_quotes [] = []"
| "double_quotes (c # cs) =
     (if c = dquote then dquote # dquote # double_quotes cs else c # double_quotes cs)"

definition csv_field :: "string \<Rightarrow> string" where
  "csv_field s = (if needs_quote s then dquote # double_quotes s @ [dquote] else s)"

fun join_fields :: "string list \<Rightarrow> string" where
  "join_fields [] = []"
| "join_fields [f] = f"
| "join_fields (f # g # fs) = f @ comma # join_fields (g # fs)"

definition csv_line :: "string list \<Rightarrow> string" where
  "csv_line fs =
     (if fs = [[]] then [dquote, dquote] else join_fields (map csv_field fs)) @ [newline]"

definition to_csv :: "frame \<Rightarrow> string" where
  "to_csv fr = concat (map csv_line (columns fr # map (map cell_text) (cells fr)))"

text \<open>\<open>csv_from_df\<close> returns a text buffer rewound to its start: the text itself.\<close>

definition csv_from_df :: "frame \<Rightarrow> string" where
  "csv_from_df df = to_csv df"

subsection \<open>Text helpers of the pages\<close>

text \<open>
  \<open>str.strip()\<close> and \<open>str.upper()\<close> on code points below 256. The upper-case forms of
  U+00B5 and U+00FF lie above 255 and are no ASCII letters; the two characters are
  left as they are.
\<close>

definition isspace :: "char \<Rightarrow> bool" where
  "isspace c \<longleftrightarrow>
     (let n = (of_char c :: nat)
      in (9 \<le> n \<and> n \<le> 13) \<or> (28 \<le> n \<and> n \<le> 32) \<or> n = 133 \<or> n = 160)"

definition strip :: "string \<Rightarrow> string" where
  "strip s = rev (dropWhile isspace (rev (dropWhile isspace s)))"

definition upper_char :: "char \<Rightarrow> string" where
  "upper_char c =
     (let n = (of_char c :: nat)
      in if 97 \<le> n \<and> n \<le> 122 then [char_of (n - 32)]
         else if n = 223 then ''SS''
         else if 224 \<le> n \<and> n \<le> 254 \<and> n \<noteq> 247 then [char_of (n - 32)]
         else [c])"

definition upper :: "string \<Rightarrow> string" where
  "upper s = concat (map upper_char s)"

text \<open>
  \<open>st.text_input(label, value=v)\<close> gives \<open>v\<close> until the user edits the field, and the
  edited text afterwards.
\<close>

definition text_input :: "string \<Rightarrow> string option \<Rightarrow> string" where
  "text_input v typed = (case typed of None \<Rightarrow> v | Some s \<Rightarrow> s)"

subsection \<open>Overview page: the attendance figures\<close>

datatype metric = NA | Taux rat

definition mean :: "nat list \<Rightarrow> rat" where
  "mean xs = of_nat (sum_list xs) / of_nat (length xs)"

text \<open>
  The metric "Taux de presence (30j)". The argument \<open>now\<close> is \<open>pd.Timestamp.today()\<close>.
  An attendance date that \<open>pd.to_datetime\<close> rejects raises inside the \<open>try\<close> block, and
  the handler shows "N/A".
\<close>

definition attendance_rate_30 :: "int \<Rightarrow> attendance_view list \<Rightarrow> metric" where
  "attendance_rate_30 now df =
     (if length df > 0 then
        (case those (map (\<lambda>r. to_datetime (v_attend_date r)) df) of
           None \<Rightarrow> NA
         | Some ts \<Rightarrow>
             (let last_30 = map snd (filter (\<lambda>tr. fst tr \<ge> now - 30 * ns_per_day)
                                            (zip ts df))
              in if length last_30 > 0
                 then Taux (mean (map v_present last_30) * 100)
                 else NA))
      else NA)"

text \<open>
  The chart data: \<open>groupby('attend_date')['present'].mean()\<close> on the calendar dates, with
  the group keys in ascending order, and the column \<open>taux = present * 100\<close>. The result
  is \<open>None\<close> when there is no attendance row (the page then shows a notice and no
  chart). Here a date that cannot be read is not caught.
\<close>

definition daily_attendance_rate :: "attendance_view list \<Rightarrow> error + (date \<times> rat) list option" where
  "daily_attendance_rate df =
     (if length df > 0 then
        (case those (map (\<lambda>r. parse_date (v_attend_date r)) df) of
           None \<Rightarrow> Inl (ValueError ''attend_date'')
         | Some ds \<Rightarrow>
             Inr (Some (map (\<lambda>k. (k, mean (map (\<lambda>dr. v_present (snd dr))
                                     (filter (\<lambda>dr. fst dr = k) (zip ds df))) * 100))
                            (sort (remdups ds)))))
      else Inr None)"

subsection \<open>Pages: forms and buttons\<close>

text \<open>
  Page "Vue d'ensemble": the number of members, the number of open prayer requests, the
  attendance metric and the chart data. The page writes nothing.
\<close>

definition vue_d_ensemble ::
    "int \<Rightarrow> db \<Rightarrow> error + nat \<times> nat \<times> metric \<times> (date \<times> rat) list option" where
  "vue_d_ensemble now d =
     (case get_members_df d of
        Inl e \<Rightarrow> Inl e
      | Inr ms \<Rightarrow>
     (case get_attendance_df d of
        Inl e \<Rightarrow> Inl e
      | Inr vs \<Rightarrow>
     (case get_prayers_df d of
        Inl e \<Rightarrow> Inl e
      | Inr ps \<Rightarrow>
     (case daily_attendance_rate vs of
        Inl e \<Rightarrow> Inl e
      | Inr chart \<Rightarrow>
          Inr (length ms, length (filter (\<lambda>p. p_status p = ''open'') ps),
               attendance_rate_30 now vs, chart)))))"

datatype notice = Warning | Success

text \<open>Page "Membres": the form \<open>add_member_form\<close>.\<close>

definition add_member_form ::
    "date \<Rightarrow> string \<Rightarrow> string \<Rightarrow> string \<Rightarrow> string \<Rightarrow> bool \<Rightarrow> db \<Rightarrow> error + db \<times> notice option" where
  "add_member_form today name phone email role submitted d =
     (if submitted then
        (if name = [] then Inr (d, Some Warning)
         else (case add_member today name phone email role d of
                 Inl e \<Rightarrow> Inl e
               | Inr d' \<Rightarrow> Inr (d', Some Success)))
      else Inr (d, None))"

text \<open>
  The list under the form: when there is a member, the page offers the CSV text of the
  members view for download.
\<close>

definition membres_download :: "db \<Rightarrow> error + string option" where
  "membres_download d =
     (case get_members_df d of
        Inl e \<Rightarrow> Inl e
      | Inr ms \<Rightarrow>
          Inr (if length ms > 0 then Some (csv_from_df (members_frame ms)) else None))"

text \<open>
  Page "Presences": the form \<open>attendance_form\<close>. The select box offers one entry for
  each member; \<open>member_choice\<close> is the position of the chosen entry.
\<close>

definition attendance_form ::
    "nat \<Rightarrow> bool \<Rightarrow> date \<Rightarrow> string \<Rightarrow> bool \<Rightarrow> db \<Rightarrow> error + db \<times> notice option" where
  "attendance_form member_choice present attend_date note submit_att d =
     (case get_members_df d of
        Inl e \<Rightarrow> Inl e
      | Inr ms \<Rightarrow>
          (if length ms = 0 then Inr (d, None)
           else if submit_att \<and> member_choice < length ms then
             (case add_attendance (m_id (ms ! member_choice)) (isoformat attend_date)
                     present note d of
                Inl e \<Rightarrow> Inl e
              | Inr d' \<Rightarrow> Inr (d', Some Success))
           else Inr (d, None)))"

text \<open>Page "Priere": the form \<open>prayer_form\<close> and the two buttons under each request.\<close>

definition prayer_form ::
    "date \<Rightarrow> string \<Rightarrow> string \<Rightarrow> bool \<Rightarrow> db \<Rightarrow> error + db \<times> notice option" where
  "prayer_form today requester content sub d =
     (if sub then
        (if content = [] then Inr (d, Some Warning)
         else (case add_prayer today requester content d of
                 Inl e \<Rightarrow> Inl e
               | Inr d' \<Rightarrow> Inr (d', Some Success)))
      else Inr (d, None))"

datatype button = Repondu nat | En_priere nat

text \<open>
  The loop over the listed requests. Each button carries the id of its row in its label;
  the first row whose button was pressed is updated and the script is run again.
\<close>

fun prayer_buttons :: "button option \<Rightarrow> prayer list \<Rightarrow> db \<Rightarrow> error + db" where
  "prayer_buttons clicked [] d = Inr d"
| "prayer_buttons clicked (row # rest) d =
     (if clicked = Some (Repondu (p_id row)) then update_prayer_status (p_id row) ''answered'' d
      else if clicked = Some (En_priere (p_id row)) then update_prayer_status (p_id row) ''open'' d
      else prayer_buttons clicked rest d)"

definition priere_page ::
    "date \<Rightarrow> string \<Rightarrow> string \<Rightarrow> bool \<Rightarrow> button option \<Rightarrow> db \<Rightarrow> error + db" where
  "priere_page today requester content sub clicked d =
     (case prayer_form today requester content sub d of
        Inl e \<Rightarrow> Inl e
      | Inr (d1, _) \<Rightarrow>
          (case get_prayers_df d1 of
             Inl e \<Rightarrow> Inl e
           | Inr ps \<Rightarrow> prayer_buttons clicked ps d1))"

text \<open>
  Page "Parametres / Export". A zip archive is the list of its entries, name and
  content, in the order in which \<open>writestr\<close> added them.
\<close>

type_synonym archive = "(string \<times> string) list"

definition export_zip :: "bool \<Rightarrow> db \<Rightarrow> error + archive option" where
  "export_zip clicked d =
     (case get_members_df d of
        Inl e \<Rightarrow> Inl e
      | Inr ms \<Rightarrow>
     (case get_attendance_df d of
        Inl e \<Rightarrow> Inl e
      | Inr vs \<Rightarrow>
     (case get_prayers_df d of
        Inl e \<Rightarrow> Inl e
      | Inr ps \<Rightarrow>
          (if clicked then
             Inr (Some [(''membres.csv'', to_csv (members_frame ms)),
                        (''presences.csv'', to_csv (attendance_frame vs)),
                        (''prayers.csv'', to_csv (prayers_frame ps))])
           else Inr None))))"

text \<open>
  The block under the reset button, as a function of the text that the confirmation
  field hands over. (In a run in which the button has just been pressed the field is new
  and hands over its initial, empty text; the block is stated for every text.)
\<close>

definition reinitialiser :: "bool \<Rightarrow> string \<Rightarrow> db \<Rightarrow> error + db \<times> notice option" where
  "reinitialiser clicked confirm d =
     (if clicked then
        (if upper (strip confirm) = ''CONFIRMER'' then
           (case execute DropAttendance d of
              Inl e \<Rightarrow> Inl e
            | Inr d1 \<Rightarrow>
           (case execute DropPrayers d1 of
              Inl e \<Rightarrow> Inl e
            | Inr d2 \<Rightarrow>
           (case execute DropMembers d2 of
              Inl e \<Rightarrow> Inl e
            | Inr d3 \<Rightarrow> Inr (init_db d3, Some Success))))
         else Inr (d, Some Warning))
      else Inr (d, None))"

subsection \<open>The script as a transition system\<close>

text \<open>
  One run of the script: \<open>init_db\<close>, then the selected page with the values its widgets
  hand over; an event names the page and these values. What a page displays is not part
  of the state: a run gives the database it leaves, or the error it stops with. The events
  are not restricted to what one click can do (a run may submit a form and press a button),
  nor are their date triples restricted to calendar dates; every state that the program
  reaches is reachable here.
\<close>

datatype event =
    Vue_d_ensemble int
  | Membres date string string string string bool
  | Presences nat bool date string bool
  | Priere date string string bool "button option"
  | Parametres bool bool string

fun page :: "event \<Rightarrow> db \<Rightarrow> error + db" where
  "page (Vue_d_ensemble now) d = map_sum id (\<lambda>_. d) (vue_d_ensemble now d)"
| "page (Membres today name phone email role submitted) d =
     (case add_member_form today name phone email role submitted d of
        Inl e \<Rightarrow> Inl e
      | Inr (d1, _) \<Rightarrow> map_sum id (\<lambda>_. d1) (membres_download d1))"
| "page (Presences member_choice present attend_date note submit_att) d =
     map_sum id fst (attendance_form member_choice present attend_date note submit_att d)"
| "page (Priere today requester content sub clicked) d =
     priere_page today requester content sub clicked d"
| "page (Parametres export reset confirm) d =
     (case export_zip export d of
        Inl e \<Rightarrow> Inl e
      | Inr _ \<Rightarrow> map_sum id fst (reinitialiser reset confirm d))"

definition script :: "event \<Rightarrow> db \<Rightarrow> error + db" where
  "script ev d = page ev (init_db d)"

definition no_database :: db where
  "no_database = \<lparr>members = None, attendance = None, prayers = None\<rparr>"

inductive reachable :: "db \<Rightarrow> bool" where
  start: "reachable no_database"
| run: "reachable d \<Longrightarrow> script ev d = Inr d' \<Longrightarrow> reachable d'"

subsection \<open>Reading a CSV export back\<close>

text \<open>
  Modelled from the spec: the program writes CSV and never reads it; the spec's round
  trip speaks of the export "parsed back". The reader below is the usual one for the
  format the export is written in: fields separated by commas, records ended by a line
  feed, a field in double quotes may hold commas, line breaks and doubled quotes. It is
  a scanner with the states of \<open>csv_mode\<close>; its state also holds the field read so far,
  the fields of the current record and the records already complete.
\<close>

datatype csv_mode = RowStart | FieldStart | Unquoted | Quoted | QuoteSeen | Malformed

type_synonym csv_state = "csv_mode \<times> string \<times> string list \<times> string list list"

fun csv_step :: "csv_state \<Rightarrow> char \<Rightarrow> csv_state" where
  "csv_step (RowStart, f, fs, rs) c =
     (if c = dquote then (Quoted, [], [], rs)
      else if c = comma then (FieldStart, [], [[]], rs)
      else if c = newline then (RowStart, [], [], rs @ [[]])
      else (Unquoted, [c], [], rs))"
| "csv_step (FieldStart, f, fs, rs) c =
     (if c = dquote then (Quoted, [], fs, rs)
      else if c = comma then (FieldStart, [], fs @ [[]], rs)
      else if c = newline then (RowStart, [], [], rs @ [fs @ [[]]])
      else (Unquoted, [c], fs, rs))"
| "csv_step (Unquoted, f, fs, rs) c =
     (if c = dquote then (Malformed, [], [], rs)
      else if c = comma then (FieldStart, [], fs @ [f], rs)
      else if c = newline then (RowStart, [], [], rs @ [fs @ [f]])
      else (Unquoted, f @ [c], fs, rs))"
| "csv_step (Quoted, f, fs, rs) c =
     (if c = dquote then (QuoteSeen, f, fs, rs) else (Quoted, f @ [c], fs, rs))"
| "csv_step (QuoteSeen, f, fs, rs) c =
     (if c = dquote then (Quoted, f @ [dquote], fs, rs)
      else if c = comma then (FieldStart, [], fs @ [f], rs)
      else if c = newline then (RowStart, [], [], rs @ [fs @ [f]])
      else (Malformed, [], [], rs))"
| "csv_step (Malformed, f, fs, rs) c = (Malformed, f, fs, rs)"

definition csv_finish :: "csv_state \<Rightarrow> string list list option" where
  "csv_finish st = (case st of (m, f, fs, rs) \<Rightarrow>
     (case m of
        RowStart \<Rightarrow> Some rs
      | FieldStart \<Rightarrow> Some (rs @ [fs @ [[]]])
      | Unquoted \<Rightarrow> Some (rs @ [fs @ [f]])
      | QuoteSeen \<Rightarrow> Some (rs @ [fs @ [f]])
      | Quoted \<Rightarrow> None
      | Malformed \<Rightarrow> None))"

definition read_csv :: "string \<Rightarrow> string list list option" where
  "read_csv text = csv_finish (foldl csv_step (RowStart, [], [], []) text)"

text \<open>
  Modelled from the spec: a record of the members export read back as a member, the id
  from its decimal digits and every other column as the text of its field.
\<close>

definition member_of_fields :: "string list \<Rightarrow> member option" where
  "member_of_fields fs =
     (case fs of
        [i, n, p, e, r, j] \<Rightarrow>
          (if i \<noteq> [] \<and> list_all is_digit i
           then Some \<lparr>m_id = nat_of_str i, m_name = n, m_phone = p, m_email = e,
                      m_role = r, m_joined = j\<rparr>
           else None)
      | _ \<Rightarrow> None)"

definition read_members_csv :: "string \<Rightarrow> member list option" where
  "read_members_csv text =
     (case read_csv text of
        None \<Rightarrow> None
      | Some [] \<Rightarrow> None
      | Some (h # rs) \<Rightarrow>
          (if h = members_columns then those (map member_of_fields rs) else None))"

subsection \<open>The rolling window in the words of the specification\<close>

text \<open>
  The specification's \<open>attendanceRate(windowDays)\<close>: the records whose date lies in the
  trailing window, with the lower bound included and the current time as upper bound;
  their mean presence as a percentage, or N/A when there is none.
\<close>

definition in_trailing_window :: "nat \<Rightarrow> int \<Rightarrow> int \<Rightarrow> bool" where
  "in_trailing_window window_days now t \<longleftrightarrow> now - int window_days * ns_per_day \<le> t \<and> t \<le> now"

definition spec_attendance_rate :: "nat \<Rightarrow> int \<Rightarrow> attendance_view list \<Rightarrow> metric" where
  "spec_attendance_rate window_days now df =
     (case those (map (\<lambda>r. to_datetime (v_attend_date r)) df) of
        None \<Rightarrow> NA
      | Some ts \<Rightarrow>
          (let filtered = map snd (filter (\<lambda>tr. in_trailing_window window_days now (fst tr))
                                          (zip ts df))
           in if filtered = [] then NA else Taux (mean (map v_present filtered) * 100)))"

subsection \<open>Runs of the script\<close>

fun run_all :: "event list \<Rightarrow> db \<Rightarrow> error + db" where
  "run_all [] d = Inr d"
| "run_all (ev # evs) d = (case script ev d of Inl e \<Rightarrow> Inl e | Inr d' \<Rightarrow> run_all evs d')"

subsection \<open>Predicates of the properties\<close>

text \<open>The calendar dates that a \<open>datetime.date\<close> can hold.\<close>

definition valid_date :: "date \<Rightarrow> bool" where
  "valid_date d = (case d of (y, m, dd) \<Rightarrow>
     1 \<le> y \<and> y \<le> 9999 \<and> 1 \<le> m \<and> m \<le> 12 \<and> 1 \<le> dd \<and> dd \<le> days_in_month y m)"

definition status_ok :: "prayer \<Rightarrow> bool" where
  "status_ok r \<longleftrightarrow> p_status r = ''open'' \<or> p_status r = ''answered''"

definition statuses_ok :: "db \<Rightarrow> bool" where
  "statuses_ok d = (case prayers d of None \<Rightarrow> True | Some t \<Rightarrow> list_all status_ok (rows t))"

text \<open>
  The order in which \<open>ORDER BY created DESC\<close> on rows scanned by ascending id leaves two
  rows: the later date first, and the smaller id first when the dates are equal.
\<close>

definition tie_order :: "prayer \<Rightarrow> prayer \<Rightarrow> bool" where
  "tie_order a b \<longleftrightarrow>
     p_created b < p_created a \<or> (p_created a = p_created b \<and> p_id a < p_id b)"

definition prayer_ids_increasing :: "db \<Rightarrow> bool" where
  "prayer_ids_increasing d =
     (case prayers d of None \<Rightarrow> True | Some t \<Rightarrow> sorted_wrt (<) (map p_id (rows t)))"

text \<open>The present flags of the records of one calendar date, in the order of the view.\<close>

definition day_flags :: "date list \<Rightarrow> attendance_view list \<Rightarrow> date \<Rightarrow> nat list" where
  "day_flags ds df k = map (\<lambda>dr. v_present (snd dr)) (filter (\<lambda>dr. fst dr = k) (zip ds df))"

subsection \<open>Sample data\<close>

text \<open>Prayer requests, entered through the prayer page.\<close>

definition sample_submitted :: db where
  "sample_submitted =
     \<lparr>members = Some empty_table, attendance = Some empty_table,
      prayers = Some \<lparr>rows =
        [\<lparr>p_id = 1, p_requester = ''Anonyme'', p_content = ''Sante'',
          p_created = ''2024-01-05'', p_status = ''open''\<rparr>], seq = 1\<rparr>\<rparr>"

definition sample_answered :: db where
  "sample_answered =
     \<lparr>members = Some empty_table, attendance = Some empty_table,
      prayers = Some \<lparr>rows =
        [\<lparr>p_id = 1, p_requester = ''Anonyme'', p_content = ''Sante'',
          p_created = ''2024-01-05'', p_status = ''answered''\<rparr>], seq = 1\<rparr>\<rparr>"

definition sample_prayers :: db where
  "sample_prayers =
     \<lparr>members = Some empty_table, attendance = Some empty_table,
      prayers = Some \<lparr>rows =
        [\<lparr>p_id = 1, p_requester = ''Anonyme'', p_content = ''Sante'',
          p_created = ''2024-01-05'', p_status = ''open''\<rparr>,
         \<lparr>p_id = 2, p_requester = ''Bob'', p_content = ''Examens'',
          p_created = ''2024-01-05'', p_status = ''open''\<rparr>], seq = 2\<rparr>\<rparr>"

definition sample_three :: db where
  "sample_three =
     \<lparr>members = Some empty_table, attendance = Some empty_table,
      prayers = Some \<lparr>rows =
        [\<lparr>p_id = 1, p_requester = ''Anonyme'', p_content = ''Sante'',
          p_created = ''2024-01-05'', p_status = ''open''\<rparr>,
         \<lparr>p_id = 2, p_requester = ''Bob'', p_content = ''Examens'',
          p_created = ''2024-01-05'', p_status = ''open''\<rparr>,
         \<lparr>p_id = 3, p_requester = ''Chloe'', p_content = ''Voyage'',
          p_created = ''2024-01-06'', p_status = ''open''\<rparr>], seq = 3\<rparr>\<rparr>"

text \<open>Noon of 2024-01-05 as a timestamp, and attendance views around it.\<close>

definition sample_now :: int where
  "sample_now = 1704456000000000000"

definition sample_future :: attendance_view where
  "sample_future =
     \<lparr>v_id = 1, v_member_id = 1, v_member_name = Some ''Alice'',
      v_attend_date = ''2024-01-06'', v_present = 0, v_note = []\<rparr>"

definition sample_old :: "attendance_view list" where
  "sample_old =
     [\<lparr>v_id = 1, v_member_id = 1, v_member_name = Some ''Alice'',
       v_attend_date = ''2023-11-01'', v_present = 1, v_note = []\<rparr>]"

definition sample_recent :: "attendance_view list" where
  "sample_recent =
     [\<lparr>v_id = 1, v_member_id = 1, v_member_name = Some ''Alice'',
       v_attend_date = ''2023-11-01'', v_present = 1, v_note = []\<rparr>,
      \<lparr>v_id = 2, v_member_id = 1, v_member_name = Some ''Alice'',
       v_attend_date = ''2024-01-02'', v_present = 1, v_note = []\<rparr>,
      \<lparr>v_id = 3, v_member_id = 2, v_member_name = Some ''Bob'',
       v_attend_date = ''2024-01-02'', v_present = 0, v_note = []\<rparr>]"

text \<open>
  A record dated on the day after \<open>sample_now\<close>, entered through the pages on the day
  of \<open>sample_now\<close>.
\<close>

definition sample_future_events :: "event list" where
  "sample_future_events =
     [Membres (2024, 1, 5) ''Alice'' [] [] ''Leader'' True,
      Presences 0 False (2024, 1, 6) [] True]"

definition sample_future_db :: db where
  "sample_future_db =
     \<lparr>members = Some \<lparr>rows =
        [\<lparr>m_id = 1, m_name = ''Alice'', m_phone = [], m_email = [], m_role = ''Leader'',
          m_joined = ''2024-01-05''\<rparr>], seq = 1\<rparr>,
      attendance = Some \<lparr>rows =
        [\<lparr>a_id = 1, a_member_id = 1, a_attend_date = ''2024-01-06'', a_present = 0,
          a_note = []\<rparr>], seq = 1\<rparr>,
      prayers = Some empty_table\<rparr>"

text \<open>Two members and three attendance records, entered through the pages.\<close>

definition sample_events :: "event list" where
  "sample_events =
     [Membres (2024, 1, 1) ''Alice'' [] [] ''Leader'' True,
      Membres (2024, 1, 1) ''Bob'' [] [] ''Membre'' True,
      Presences 0 True (2024, 1, 14) [] True,
      Presences 0 True (2024, 1, 7) [] True,
      Presences 1 False (2024, 1, 7) [] True]"

definition sample_cell :: db where
  "sample_cell =
     \<lparr>members = Some \<lparr>rows =
        [\<lparr>m_id = 1, m_name = ''Alice'', m_phone = [], m_email = [], m_role = ''Leader'',
          m_joined = ''2024-01-01''\<rparr>,
         \<lparr>m_id = 2, m_name = ''Bob'', m_phone = [], m_email = [], m_role = ''Membre'',
          m_joined = ''2024-01-01''\<rparr>], seq = 2\<rparr>,
      attendance = Some \<lparr>rows =
        [\<lparr>a_id = 1, a_member_id = 1, a_attend_date = ''2024-01-14'', a_present = 1, a_note = []\<rparr>,
         \<lparr>a_id = 2, a_member_id = 1, a_attend_date = ''2024-01-07'', a_present = 1, a_note = []\<rparr>,
         \<lparr>a_id = 3, a_member_id = 2, a_attend_date = ''2024-01-07'', a_present = 0, a_note = []\<rparr>],
        seq = 3\<rparr>,
      prayers = Some empty_table\<rparr>"

definition sample_week :: "attendance_view list" where
  "sample_week =
     [\<lparr>v_id = 1, v_member_id = 1, v_member_name = Some ''Alice'',
       v_attend_date = ''2024-01-14'', v_present = 1, v_note = []\<rparr>,
      \<lparr>v_id = 2, v_member_id = 1, v_member_name = Some ''Alice'',
       v_attend_date = ''2024-01-07'', v_present = 1, v_note = []\<rparr>,
      \<lparr>v_id = 3, v_member_id = 2, v_member_name = Some ''Bob'',
       v_attend_date = ''2024-01-07'', v_present = 0, v_note = []\<rparr>]"

text \<open>Member rows whose export needs quoting.\<close>

definition sample_quoted :: "member list" where
  "sample_quoted =
     [\<lparr>m_id = 12, m_name = ''Dupont, Jean'', m_phone = ''0601'', m_email = [],
       m_role = ''Visiteur'', m_joined = ''2024-01-05''\<rparr>,
      \<lparr>m_id = 13, m_name = ''Marie '' @ [dquote] @ ''Mimi'' @ [dquote], m_phone = [],
       m_email = ''m@x.fr'', m_role = ''Membre'', m_joined = ''2024-01-06''\<rparr>]"

section \<open>Properties\<close>

subsection \<open>Storage\<close>

lemma init_db_no_database:
  "init_db no_database =
     \<lparr>members = Some empty_table, attendance = Some empty_table, prayers = Some empty_table\<rparr>"
  by (simp add: init_db_def no_database_def create_table_if_not_exists_def)

lemma fold_max_eq_Max: "fold max xs (a::nat) = Max (set (a # xs))"
  by (simp only: Max.set_eq_fold)

lemma next_rowid_fresh: "x \<in> set ids \<Longrightarrow> x < next_rowid ids s"
proof -
  assume "x \<in> set ids"
  then have "x \<le> Max (set (0 # ids))" by (intro Max_ge) auto
  then show ?thesis by (simp add: next_rowid_def fold_max_eq_Max del: set_simps)
qed

lemma next_rowid_notin: "next_rowid ids s \<notin> set ids"
  using next_rowid_fresh [of "next_rowid ids s" ids s] by auto

lemma next_rowid_gt_seq: "s < next_rowid ids s"
  by (simp add: next_rowid_def)

subsection \<open>Decimal numerals and dates\<close>

text \<open>Reading back what \<open>str_of_nat\<close> writes.\<close>

lemma of_char_digit: "k < 10 \<Longrightarrow> of_char (digit k) = 48 + k"
  by (simp add: digit_def of_char_of)

lemma is_digit_digit: "k < 10 \<Longrightarrow> is_digit (digit k)"
  by (simp add: is_digit_def less_eq_char_def of_char_digit)

lemma digit_val_digit: "k < 10 \<Longrightarrow> digit_val (digit k) = k"
  by (simp add: digit_val_def of_char_digit)

lemma nat_of_str_snoc: "nat_of_str (s @ [c]) = 10 * nat_of_str s + digit_val c"
  by (simp add: nat_of_str_def)

lemma nat_of_str_of_nat: "nat_of_str (str_of_nat n) = n"
proof (induction n rule: str_of_nat.induct)
  case (1 n)
  show ?case
  proof (cases "n < 10")
    case True
    then show ?thesis
      by (subst str_of_nat.simps) (simp add: nat_of_str_def digit_val_digit)
  next
    case False
    with 1 have "nat_of_str (str_of_nat (n div 10)) = n div 10" by simp
    with False show ?thesis
      by (subst str_of_nat.simps) (simp add: nat_of_str_snoc digit_val_digit)
  qed
qed

lemma digits_str_of_nat: "list_all is_digit (str_of_nat n)"
proof (induction n rule: str_of_nat.induct)
  case (1 n)
  show ?case
  proof (cases "n < 10")
    case True
    then show ?thesis by (subst str_of_nat.simps) (simp add: is_digit_digit)
  next
    case False
    with 1 have "list_all is_digit (str_of_nat (n div 10))" by simp
    with False show ?thesis by (subst str_of_nat.simps) (simp add: is_digit_digit)
  qed
qed

lemma str_of_nat_not_Nil: "str_of_nat n \<noteq> []"
  by (subst str_of_nat.simps) simp

text \<open>The digits of a zero-padded number of at most four digits.\<close>

lemma digit_0: "digit 0 = CHR ''0''"
  by code_simp

lemma str_of_nat_small: "n < 10 \<Longrightarrow> str_of_nat n = [digit n]"
  by (subst str_of_nat.simps) simp

lemma str_of_nat_step: "10 \<le> n \<Longrightarrow> str_of_nat n = str_of_nat (n div 10) @ [digit (n mod 10)]"
  by (subst str_of_nat.simps) simp

lemma zfill2: "n < 100 \<Longrightarrow> zfill 2 (str_of_nat n) = [digit (n div 10), digit (n mod 10)]"
proof (cases "n < 10")
  case True
  then show ?thesis by (simp add: str_of_nat_small zfill_def digit_0)
next
  case False
  assume "n < 100"
  with False have "n div 10 < 10" "10 \<le> n" by auto
  then show ?thesis by (simp add: str_of_nat_step str_of_nat_small zfill_def)
qed

lemma div_100: "(n::nat) div 10 div 10 = n div 100"
  using div_mult2_eq [of n 10 10] by simp

lemma div_1000: "(n::nat) div 100 div 10 = n div 1000"
  using div_mult2_eq [of n 100 10] by simp

lemma replicate_3: "replicate 3 c = [c, c, c]"
  by (simp add: numeral_3_eq_3)

lemma replicate_2: "replicate 2 c = [c, c]"
  by (simp add: numeral_2_eq_2)

lemma str_of_nat_3: "100 \<le> n \<Longrightarrow> n < 1000 \<Longrightarrow>
  str_of_nat n = [digit (n div 100), digit (n div 10 mod 10), digit (n mod 10)]"
proof -
  assume a: "100 \<le> n" "n < 1000"
  then have "10 \<le> n" "10 \<le> n div 10" "n div 10 div 10 < 10" by auto
  then show ?thesis by (simp add: str_of_nat_step str_of_nat_small div_100)
qed

lemma str_of_nat_4: "1000 \<le> n \<Longrightarrow> n < 10000 \<Longrightarrow>
  str_of_nat n = [digit (n div 1000), digit (n div 100 mod 10), digit (n div 10 mod 10), digit (n mod 10)]"
proof -
  assume a: "1000 \<le> n" "n < 10000"
  then have "10 \<le> n" "10 \<le> n div 10" "10 \<le> n div 10 div 10" "n div 10 div 10 div 10 < 10" by auto
  then show ?thesis by (simp add: str_of_nat_step str_of_nat_small div_100 div_1000)
qed

lemma zfill4: "n < 10000 \<Longrightarrow> zfill 4 (str_of_nat n) =
   [digit (n div 1000), digit (n div 100 mod 10), digit (n div 10 mod 10), digit (n mod 10)]"
proof -
  assume n: "n < 10000"
  consider "n < 10" | "10 \<le> n" "n < 100" | "100 \<le> n" "n < 1000" | "1000 \<le> n" by linarith
  then show ?thesis
  proof cases
    case 1
    then show ?thesis by (simp add: str_of_nat_small zfill_def digit_0 replicate_3)
  next
    case 2
    then have "n div 10 < 10" by auto
    with 2 show ?thesis
      by (simp add: str_of_nat_step str_of_nat_small zfill_def digit_0 replicate_2)
  next
    case 3
    then show ?thesis by (simp add: str_of_nat_3 zfill_def digit_0)
  next
    case 4
    with n show ?thesis by (simp add: str_of_nat_4 zfill_def)
  qed
qed

lemma isoformat_digits:
  assumes "y < 10000" "m < 100" "d < 100"
  shows "isoformat (y, m, d) =
    [digit (y div 1000), digit (y div 100 mod 10), digit (y div 10 mod 10), digit (y mod 10),
     CHR ''-'', digit (m div 10), digit (m mod 10), CHR ''-'', digit (d div 10), digit (d mod 10)]"
  using assms by (simp add: isoformat_def zfill4 zfill2)


lemma nat_of_str_zeros: "nat_of_str (replicate k (CHR ''0'') @ s) = nat_of_str s"
  by (induction k) (simp_all add: nat_of_str_def digit_val_def)

lemma nat_of_str_zfill: "nat_of_str (zfill w (str_of_nat n)) = n"
  by (simp add: zfill_def nat_of_str_zeros nat_of_str_of_nat)

lemma nat_of_digits4:
  "n < 10000 \<Longrightarrow>
     nat_of_str [digit (n div 1000), digit (n div 100 mod 10), digit (n div 10 mod 10),
                 digit (n mod 10)] = n"
  using nat_of_str_zfill [of 4 n] by (simp add: zfill4)

lemma nat_of_digits2: "n < 100 \<Longrightarrow> nat_of_str [digit (n div 10), digit (n mod 10)] = n"
  using nat_of_str_zfill [of 2 n] by (simp add: zfill2)

lemma days_in_month_le: "days_in_month y m \<le> 31"
  by (simp add: days_in_month_def)

lemma valid_date_bounds:
  assumes "valid_date (y, m, d)"
  shows "y < 10000" and "m < 100" and "d < 100"
proof -
  from assms show "y < 10000" and "m < 100" by (simp_all add: valid_date_def)
  from assms have "d \<le> days_in_month y m" by (simp add: valid_date_def)
  with days_in_month_le [of y m] show "d < 100" by linarith
qed

lemma parse_date_isoformat:
  assumes "valid_date (y, m, d)"
  shows "parse_date (isoformat (y, m, d)) = Some (y, m, d)"
proof -
  note b = valid_date_bounds [OF assms]
  from b have digits: "y div 1000 < 10" "m div 10 < 10" "d div 10 < 10" by auto
  from assms b digits show ?thesis
    by (simp add: isoformat_digits parse_date_def is_digit_digit nat_of_digits4 nat_of_digits2
        valid_date_def)
qed

lemma digit_less: "a < 10 \<Longrightarrow> b < 10 \<Longrightarrow> (digit a < digit b) = (a < b)"
  by (simp add: less_char_def of_char_digit)

lemma digit_eq: "a < 10 \<Longrightarrow> b < 10 \<Longrightarrow> (digit a = digit b) = (a = b)"
  by (metis digit_val_digit)

lemma append_less_same_length:
  "length xs = length ys \<Longrightarrow>
     (xs @ r1 < ys @ r2) = (xs < ys \<or> xs = ys \<and> r1 < (r2 :: string))"
  by (induction xs ys rule: list_induct2) auto

lemma lex10:
  "ra < 10 \<Longrightarrow> rb < 10 \<Longrightarrow>
     (qa < qb \<or> qa = qb \<and> ra < rb) = (10 * qa + ra < 10 * qb + (rb::nat))"
  by arith

lemma less_by_digits:
  "(a div 10 < b div 10 \<or> a div 10 = b div 10 \<and> a mod 10 < b mod 10) = ((a::nat) < b)"
  using lex10 [of "a mod 10" "b mod 10" "a div 10" "b div 10"] by simp

lemma eq_by_digits: "(a div 10 = b div 10 \<and> a mod 10 = b mod 10) = ((a::nat) = b)"
  by (metis div_mult_mod_eq)

lemma less_by_4_digits:
  "(a div 1000 < b div 1000 \<or> a div 1000 = b div 1000 \<and>
      (a div 100 mod 10 < b div 100 mod 10 \<or> a div 100 mod 10 = b div 100 mod 10 \<and>
         (a div 10 mod 10 < b div 10 mod 10 \<or> a div 10 mod 10 = b div 10 mod 10 \<and>
            a mod 10 < b mod 10))) = ((a::nat) < b)"
proof -
  have l1: "(a < b) = (a div 10 < b div 10 \<or> a div 10 = b div 10 \<and> a mod 10 < b mod 10)"
    by (simp add: less_by_digits)
  have l2: "(a div 10 < b div 10) =
      (a div 100 < b div 100 \<or> a div 100 = b div 100 \<and> a div 10 mod 10 < b div 10 mod 10)"
    using less_by_digits [of "a div 10" "b div 10"] by (simp add: div_100)
  have e2: "(a div 10 = b div 10) =
      (a div 100 = b div 100 \<and> a div 10 mod 10 = b div 10 mod 10)"
    using eq_by_digits [of "a div 10" "b div 10"] by (simp add: div_100)
  have l3: "(a div 100 < b div 100) =
      (a div 1000 < b div 1000 \<or> a div 1000 = b div 1000 \<and> a div 100 mod 10 < b div 100 mod 10)"
    using less_by_digits [of "a div 100" "b div 100"] by (simp add: div_1000)
  have e3: "(a div 100 = b div 100) =
      (a div 1000 = b div 1000 \<and> a div 100 mod 10 = b div 100 mod 10)"
    using eq_by_digits [of "a div 100" "b div 100"] by (simp add: div_1000)
  show ?thesis unfolding l1 l2 e2 l3 e3 by blast
qed

lemma zfill2_less:
  assumes "a < 100" "b < 100"
  shows "(zfill 2 (str_of_nat a) < zfill 2 (str_of_nat b)) = (a < b)"
proof -
  from assms have d: "a div 10 < 10" "b div 10 < 10" by auto
  with assms show ?thesis
    by (simp add: zfill2 digit_less digit_eq less_by_digits)
qed

lemma zfill4_less:
  assumes "a < 10000" "b < 10000"
  shows "(zfill 4 (str_of_nat a) < zfill 4 (str_of_nat b)) = (a < b)"
proof -
  from assms have d: "a div 1000 < 10" "b div 1000 < 10" by auto
  with assms show ?thesis
    by (simp add: zfill4 digit_less digit_eq less_by_4_digits)
qed

lemma zfill_eq: "(zfill w (str_of_nat a) = zfill w (str_of_nat b)) = (a = b)"
  by (metis nat_of_str_zfill)

lemma length_zfill2: "n < 100 \<Longrightarrow> length (zfill 2 (str_of_nat n)) = 2"
  by (simp add: zfill2)

lemma length_zfill4: "n < 10000 \<Longrightarrow> length (zfill 4 (str_of_nat n)) = 4"
  by (simp add: zfill4)

lemma isoformat_less:
  assumes "valid_date d1" and "valid_date d2"
  shows "(isoformat d1 < isoformat d2) = (d1 < d2)"
proof -
  obtain y1 m1 dd1 where d1: "d1 = (y1, m1, dd1)" by (cases d1) auto
  obtain y2 m2 dd2 where d2: "d2 = (y2, m2, dd2)" by (cases d2) auto
  note b1 = valid_date_bounds [OF assms(1) [unfolded d1]]
  note b2 = valid_date_bounds [OF assms(2) [unfolded d2]]
  have "(isoformat d1 < isoformat d2) =
      (y1 < y2 \<or> y1 = y2 \<and> (m1 < m2 \<or> m1 = m2 \<and> dd1 < dd2))"
    using b1 b2
    by (simp add: d1 d2 isoformat_def append_less_same_length length_zfill2 length_zfill4
        zfill2_less zfill4_less zfill_eq)
  also have "\<dots> = (d1 < d2)"
    by (auto simp: d1 d2)
  finally show ?thesis .
qed

text \<open>
  So the text that the forms store for a calendar date is read back as that date, and
  the order of the stored texts is the order of the dates.
\<close>

lemma to_datetime_isoformat:
  "valid_date d \<Longrightarrow> to_datetime (isoformat d) = Some (days_from_civil d * ns_per_day)"
  by (cases d) (simp add: to_datetime_def parse_date_isoformat)

lemma isoformat_le:
  assumes "valid_date d1" and "valid_date d2"
  shows "(isoformat d1 \<le> isoformat d2) = (d1 \<le> d2)"
  using isoformat_less [OF assms(2) assms(1)] by (simp add: not_less [symmetric])

subsection \<open>Adding a member\<close>

text \<open>
  Claim C1. The member form with an empty name inserts nothing: the database is returned
  as it was, with a warning. With any other name, on a database whose members table
  exists, it appends exactly one row to the members table, with a fresh id, the values
  of the form and the ISO text of the current date as joined date; nothing else changes.
\<close>

theorem add_member_form_rejects_empty_name_else_inserts:
  assumes "members d = Some t"
  shows "add_member_form today [] phone email role True d = Inr (d, Some Warning)
    \<and> (name \<noteq> [] \<longrightarrow>
        (\<exists>i. i \<notin> set (map m_id (rows t))
           \<and> add_member_form today name phone email role True d =
               Inr (d\<lparr>members := Some \<lparr>rows = rows t @
                      [\<lparr>m_id = i, m_name = name, m_phone = phone, m_email = email,
                        m_role = role, m_joined = isoformat today\<rparr>], seq = i\<rparr>\<rparr>,
                    Some Success)))"
proof (intro conjI impI)
  show "add_member_form today [] phone email role True d = Inr (d, Some Warning)"
    by (simp add: add_member_form_def)
next
  assume "name \<noteq> []"
  let ?i = "next_rowid (map m_id (rows t)) (seq t)"
  have "?i \<notin> set (map m_id (rows t))" by (rule next_rowid_notin)
  moreover have "add_member_form today name phone email role True d =
      Inr (d\<lparr>members := Some \<lparr>rows = rows t @
            [\<lparr>m_id = ?i, m_name = name, m_phone = phone, m_email = email,
              m_role = role, m_joined = isoformat today\<rparr>], seq = ?i\<rparr>\<rparr>, Some Success)"
    using assms \<open>name \<noteq> []\<close> by (simp add: add_member_form_def add_member_def Let_def)
  ultimately show "\<exists>i. i \<notin> set (map m_id (rows t))
           \<and> add_member_form today name phone email role True d =
               Inr (d\<lparr>members := Some \<lparr>rows = rows t @
                      [\<lparr>m_id = i, m_name = name, m_phone = phone, m_email = email,
                        m_role = role, m_joined = isoformat today\<rparr>], seq = i\<rparr>\<rparr>,
                    Some Success)"
    by blast
qed

theorem add_member_form_witness:
  "add_member_form (2024, 1, 5) [] ''0601'' [] ''Membre'' True (init_db no_database)
     = Inr (init_db no_database, Some Warning)
   \<and> (\<exists>i. i \<notin> set (map m_id (rows (empty_table :: member table)))
        \<and> add_member_form (2024, 1, 5) ''Alice'' ''0601'' [] ''Membre'' True (init_db no_database) =
            Inr ((init_db no_database)\<lparr>members := Some \<lparr>rows = rows empty_table @
                   [\<lparr>m_id = i, m_name = ''Alice'', m_phone = ''0601'', m_email = [],
                     m_role = ''Membre'', m_joined = isoformat (2024, 1, 5)\<rparr>], seq = i\<rparr>\<rparr>,
                 Some Success))"
proof -
  have h: "members (init_db no_database) = Some empty_table"
    by (simp add: init_db_no_database)
  have n: "''Alice'' \<noteq> []" by simp
  from add_member_form_rejects_empty_name_else_inserts
         [OF h, where today = "(2024, 1, 5)" and phone = "''0601''" and email = "[]"
           and role = "''Membre''" and name = "''Alice''"] n
  show ?thesis by simp
qed

subsection \<open>Adding a prayer request\<close>

text \<open>
  Claim C2, as the code has it. The prayer form with an empty content inserts nothing and
  warns. With any other content, on a database whose prayers table exists, it appends
  exactly one row, with status "open" and the ISO text of the current date as created
  date. The requester is stored exactly as the form hands it over: the field is
  pre-filled with "Anonyme", and a field that the user has emptied is stored as the
  empty text.
\<close>

theorem prayer_form_stores_requester_as_given:
  assumes "prayers d = Some t"
  shows "prayer_form today requester [] True d = Inr (d, Some Warning)
    \<and> (content \<noteq> [] \<longrightarrow>
         prayer_form today requester content True d =
           Inr (d\<lparr>prayers := Some \<lparr>rows = rows t @
                  [\<lparr>p_id = next_rowid (map p_id (rows t)) (seq t), p_requester = requester,
                    p_content = content, p_created = isoformat today, p_status = ''open''\<rparr>],
                  seq = next_rowid (map p_id (rows t)) (seq t)\<rparr>\<rparr>, Some Success))
    \<and> text_input ''Anonyme'' None = ''Anonyme''
    \<and> text_input ''Anonyme'' (Some []) = []"
  using assms
  by (simp add: prayer_form_def add_prayer_def text_input_def Let_def)

theorem prayer_form_witness:
  "prayer_form (2024, 1, 5) ''Anonyme'' [] True (init_db no_database)
     = Inr (init_db no_database, Some Warning)
   \<and> prayer_form (2024, 1, 5) (text_input ''Anonyme'' None) ''Sante'' True (init_db no_database)
     = Inr (\<lparr>members = Some empty_table, attendance = Some empty_table,
             prayers = Some \<lparr>rows = [\<lparr>p_id = 1, p_requester = ''Anonyme'',
               p_content = ''Sante'', p_created = isoformat (2024, 1, 5),
               p_status = ''open''\<rparr>], seq = 1\<rparr>\<rparr>, Some Success)"
proof -
  have h: "prayers (init_db no_database) = Some empty_table"
    by (simp add: init_db_no_database)
  have n: "''Sante'' \<noteq> []" by simp
  have i: "next_rowid (map p_id (rows (empty_table :: prayer table))) (seq (empty_table :: prayer table)) = 1"
    by (simp add: next_rowid_def empty_table_def)
  from prayer_form_stores_requester_as_given
         [OF h, where today = "(2024, 1, 5)" and requester = "''Anonyme''"
           and content = "''Sante''"] n i
  show ?thesis by (simp add: init_db_no_database empty_table_def)
qed

text \<open>
  The claim as the specification states it fails: a request submitted with a blank
  requester is stored with the empty text as requester, not with "Anonymous".
\<close>

theorem blank_requester_counterexample:
  "prayer_form (2024, 1, 5) [] ''Sante'' True (init_db no_database) =
     Inr (\<lparr>members = Some empty_table, attendance = Some empty_table,
           prayers = Some \<lparr>rows = [\<lparr>p_id = 1, p_requester = [], p_content = ''Sante'',
             p_created = ''2024-01-05'', p_status = ''open''\<rparr>], seq = 1\<rparr>\<rparr>, Some Success)
   \<and> p_requester \<lparr>p_id = 1, p_requester = [], p_content = ''Sante'',
             p_created = ''2024-01-05'', p_status = ''open''\<rparr> \<noteq> ''Anonymous''"
  by code_simp

subsection \<open>Resetting the database\<close>

text \<open>
  Claim C4. When the reset button's block runs with a confirmation text that equals
  "CONFIRMER" once stripped of surrounding whitespace and put in upper case, the three
  tables are dropped and created again: all three are empty, whatever they held. With
  any other text the database is returned as it was, with a warning.
\<close>

theorem reinitialiser_gated:
  "reinitialiser True confirm d =
     (if upper (strip confirm) = ''CONFIRMER''
      then Inr (\<lparr>members = Some empty_table, attendance = Some empty_table,
                 prayers = Some empty_table\<rparr>, Some Success)
      else Inr (d, Some Warning))"
  by (simp add: reinitialiser_def init_db_def create_table_if_not_exists_def)

theorem reinitialiser_witness:
  "reinitialiser True '' Confirmer  '' sample_prayers =
     Inr (\<lparr>members = Some empty_table, attendance = Some empty_table,
           prayers = Some empty_table\<rparr>, Some Success)
   \<and> reinitialiser True ''CONFIRME'' sample_prayers = Inr (sample_prayers, Some Warning)
   \<and> reinitialiser True [] sample_prayers = Inr (sample_prayers, Some Warning)"
proof -
  have a: "upper (strip '' Confirmer  '') = ''CONFIRMER''" by code_simp
  have b: "upper (strip ''CONFIRME'') \<noteq> ''CONFIRMER''" by code_simp
  have c: "upper (strip []) \<noteq> ''CONFIRMER''" by code_simp
  from reinitialiser_gated [of "'' Confirmer  ''" sample_prayers]
       reinitialiser_gated [of "''CONFIRME''" sample_prayers]
       reinitialiser_gated [of "[]" sample_prayers] a b c
  show ?thesis by simp
qed

subsection \<open>Updating the status of a prayer request\<close>

lemma map_update_absent:
  "pid \<notin> set (map p_id rs) \<Longrightarrow>
     map (\<lambda>r. if p_id r = pid then r\<lparr>p_status := s\<rparr> else r) rs = rs"
  by (induction rs) auto

lemma map_update_present:
  "distinct (map p_id rs) \<Longrightarrow> i < length rs \<Longrightarrow> p_id (rs ! i) = pid \<Longrightarrow>
     map (\<lambda>r. if p_id r = pid then r\<lparr>p_status := s\<rparr> else r) rs = rs[i := (rs ! i)\<lparr>p_status := s\<rparr>]"
proof (induction rs arbitrary: i)
  case Nil
  then show ?case by simp
next
  case (Cons r rs)
  show ?case
  proof (cases i)
    case 0
    with Cons.prems have "pid \<notin> set (map p_id rs)" by auto
    with 0 Cons.prems show ?thesis by (simp add: map_update_absent)
  next
    case (Suc j)
    with Cons.prems have "p_id r \<noteq> pid" by auto
    with Suc Cons show ?thesis by simp
  qed
qed

text \<open>
  Claim C5. On a database whose prayers table exists, \<open>update_prayer_status\<close> never
  raises. With an id that no row has, the database is returned as it was. With the id of
  the row at position \<open>i\<close> (ids are a primary key, so no other row has it), the result
  is the database in which that one row has the given status; its other columns and all
  other rows and tables are as before.
\<close>

theorem update_prayer_status_spec:
  assumes "prayers d = Some t"
  shows "(pid \<notin> set (map p_id (rows t)) \<longrightarrow> update_prayer_status pid s d = Inr d)
    \<and> (distinct (map p_id (rows t)) \<and> i < length (rows t) \<and> p_id (rows t ! i) = pid \<longrightarrow>
         update_prayer_status pid s d =
           Inr (d\<lparr>prayers := Some (t\<lparr>rows := (rows t)[i := (rows t ! i)\<lparr>p_status := s\<rparr>]\<rparr>)\<rparr>))"
proof (intro conjI impI)
  assume "pid \<notin> set (map p_id (rows t))"
  then have "map (\<lambda>r. if p_id r = pid then r\<lparr>p_status := s\<rparr> else r) (rows t) = rows t"
    by (rule map_update_absent)
  with assms show "update_prayer_status pid s d = Inr d"
    by (simp add: update_prayer_status_def)
next
  assume "distinct (map p_id (rows t)) \<and> i < length (rows t) \<and> p_id (rows t ! i) = pid"
  then have "map (\<lambda>r. if p_id r = pid then r\<lparr>p_status := s\<rparr> else r) (rows t)
      = (rows t)[i := (rows t ! i)\<lparr>p_status := s\<rparr>]"
    by (intro map_update_present) auto
  with assms show "update_prayer_status pid s d =
           Inr (d\<lparr>prayers := Some (t\<lparr>rows := (rows t)[i := (rows t ! i)\<lparr>p_status := s\<rparr>]\<rparr>)\<rparr>)"
    by (simp add: update_prayer_status_def)
qed

theorem update_prayer_status_witness:
  "update_prayer_status 7 ''answered'' sample_prayers = Inr sample_prayers
   \<and> update_prayer_status 2 ''answered'' sample_prayers =
       Inr \<lparr>members = Some empty_table, attendance = Some empty_table,
            prayers = Some \<lparr>rows =
              [\<lparr>p_id = 1, p_requester = ''Anonyme'', p_content = ''Sante'',
                p_created = ''2024-01-05'', p_status = ''open''\<rparr>,
               \<lparr>p_id = 2, p_requester = ''Bob'', p_content = ''Examens'',
                p_created = ''2024-01-05'', p_status = ''answered''\<rparr>], seq = 2\<rparr>\<rparr>"
proof -
  let ?t = "\<lparr>rows =
        [\<lparr>p_id = 1, p_requester = ''Anonyme'', p_content = ''Sante'',
          p_created = ''2024-01-05'', p_status = ''open''\<rparr>,
         \<lparr>p_id = 2, p_requester = ''Bob'', p_content = ''Examens'',
          p_created = ''2024-01-05'', p_status = ''open''\<rparr>], seq = 2\<rparr>"
  have h: "prayers sample_prayers = Some ?t"
    by (simp add: sample_prayers_def)
  from update_prayer_status_spec [OF h, where pid = 7 and s = "''answered''"]
  have absent: "update_prayer_status 7 ''answered'' sample_prayers = Inr sample_prayers"
    by simp
  from update_prayer_status_spec [OF h, where pid = 2 and s = "''answered''" and i = 1]
  have present: "update_prayer_status 2 ''answered'' sample_prayers =
      Inr (sample_prayers\<lparr>prayers := Some (?t\<lparr>rows := (rows ?t)[1 := (rows ?t ! 1)\<lparr>p_status := ''answered''\<rparr>]\<rparr>)\<rparr>)"
    by simp
  from absent present show ?thesis by (simp add: sample_prayers_def)
qed

subsection \<open>The status of a prayer request\<close>

lemma statuses_ok_init_db: "statuses_ok d \<Longrightarrow> statuses_ok (init_db d)"
  by (auto simp: statuses_ok_def init_db_def create_table_if_not_exists_def empty_table_def
      split: option.splits)

lemma statuses_ok_no_database: "statuses_ok no_database"
  by (simp add: statuses_ok_def no_database_def)

lemma statuses_ok_insert_member:
  "execute (InsertMember n p e r j) d = Inr d' \<Longrightarrow> statuses_ok d \<Longrightarrow> statuses_ok d'"
  by (auto simp: statuses_ok_def Let_def split: option.splits)

lemma statuses_ok_insert_attendance:
  "execute (InsertAttendance m a p n) d = Inr d' \<Longrightarrow> statuses_ok d \<Longrightarrow> statuses_ok d'"
  by (auto simp: statuses_ok_def Let_def split: option.splits)

lemma statuses_ok_add_prayer:
  "add_prayer today requester content d = Inr d' \<Longrightarrow> statuses_ok d \<Longrightarrow> statuses_ok d'"
  by (auto simp: add_prayer_def statuses_ok_def status_ok_def Let_def split: option.splits)

lemma list_all_status_ok_update:
  "s = ''open'' \<or> s = ''answered'' \<Longrightarrow> list_all status_ok rs \<Longrightarrow>
     list_all status_ok (map (\<lambda>r. if p_id r = pid then r\<lparr>p_status := s\<rparr> else r) rs)"
  by (induction rs) (auto simp: status_ok_def)

lemma statuses_ok_update:
  "update_prayer_status pid s d = Inr d' \<Longrightarrow> s = ''open'' \<or> s = ''answered'' \<Longrightarrow>
     statuses_ok d \<Longrightarrow> statuses_ok d'"
  by (auto simp: update_prayer_status_def statuses_ok_def list_all_status_ok_update
      split: option.splits)

lemma statuses_ok_prayer_buttons:
  "prayer_buttons clicked ps d = Inr d' \<Longrightarrow> statuses_ok d \<Longrightarrow> statuses_ok d'"
proof (induction ps)
  case Nil
  then show ?case by simp
next
  case (Cons row rest)
  then show ?case
    by (auto split: if_splits intro: statuses_ok_update)
qed

lemma statuses_ok_prayer_form:
  "prayer_form today requester content sub d = Inr (d', n) \<Longrightarrow> statuses_ok d \<Longrightarrow> statuses_ok d'"
  by (auto simp: prayer_form_def split: if_splits sum.splits intro: statuses_ok_add_prayer)

lemma statuses_ok_reinitialiser:
  "reinitialiser reset confirm d = Inr (d', n) \<Longrightarrow> statuses_ok d \<Longrightarrow> statuses_ok d'"
  by (auto simp: reinitialiser_def statuses_ok_def init_db_def create_table_if_not_exists_def
      empty_table_def split: if_splits)

lemma map_sum_fst_Inr: "map_sum id fst x = Inr a \<Longrightarrow> \<exists>n. x = Inr (a, n)"
  by (cases x) auto

lemma map_sum_const_Inr: "map_sum id (\<lambda>_. d) x = Inr a \<Longrightarrow> a = d"
  by (cases x) auto

lemma statuses_ok_page: "page ev d = Inr d' \<Longrightarrow> statuses_ok d \<Longrightarrow> statuses_ok d'"
proof (cases ev)
  case (Vue_d_ensemble now)
  assume "page ev d = Inr d'" "statuses_ok d"
  with Vue_d_ensemble show ?thesis by (auto dest: map_sum_const_Inr)
next
  case (Membres today name phone email role submitted)
  assume "page ev d = Inr d'" "statuses_ok d"
  with Membres show ?thesis
    by (auto simp: add_member_form_def add_member_def split: if_splits sum.splits prod.splits
        dest!: map_sum_const_Inr intro: statuses_ok_insert_member)
next
  case (Presences member_choice present attend_date remark submit_att)
  assume "page ev d = Inr d'" "statuses_ok d"
  with Presences show ?thesis
    by (auto simp: attendance_form_def add_attendance_def split: if_splits sum.splits
        intro: statuses_ok_insert_attendance)
next
  case (Priere today requester content sub clicked)
  assume "page ev d = Inr d'" "statuses_ok d"
  with Priere show ?thesis
    by (auto simp: priere_page_def split: sum.splits prod.splits
        dest: statuses_ok_prayer_form statuses_ok_prayer_buttons)
next
  case (Parametres export reset confirm)
  assume "page ev d = Inr d'" "statuses_ok d"
  with Parametres show ?thesis
    by (auto split: sum.splits dest!: map_sum_fst_Inr dest: statuses_ok_reinitialiser)
qed

lemma reachable_statuses_ok: "reachable d \<Longrightarrow> statuses_ok d"
proof (induction rule: reachable.induct)
  case start
  show ?case by (rule statuses_ok_no_database)
next
  case (run d ev d')
  from run.IH have "statuses_ok (init_db d)" by (rule statuses_ok_init_db)
  with run.hyps(2) show ?case unfolding script_def by (blast intro: statuses_ok_page)
qed

text \<open>
  Claim C6. In every state that runs of the script reach from a missing database file,
  every stored prayer request has status "open" or "answered": the form stores "open",
  and the two buttons store "answered" and "open".
\<close>

theorem status_open_or_answered:
  assumes "reachable d" and "prayers d = Some t" and "r \<in> set (rows t)"
  shows "p_status r = ''open'' \<or> p_status r = ''answered''"
proof -
  from assms(1) have "statuses_ok d" by (rule reachable_statuses_ok)
  with assms(2,3) show ?thesis by (auto simp: statuses_ok_def status_ok_def list_all_iff)
qed

lemma sample_run_submit:
  "script (Priere (2024, 1, 5) ''Anonyme'' ''Sante'' True None) no_database = Inr sample_submitted"
  by code_simp

lemma sample_run_answer:
  "script (Priere (2024, 1, 6) ''Anonyme'' [] False (Some (Repondu 1))) sample_submitted
     = Inr sample_answered"
  by code_simp

theorem status_open_or_answered_witness:
  "reachable sample_answered
   \<and> prayers sample_answered = Some \<lparr>rows =
        [\<lparr>p_id = 1, p_requester = ''Anonyme'', p_content = ''Sante'',
          p_created = ''2024-01-05'', p_status = ''answered''\<rparr>], seq = 1\<rparr>
   \<and> (p_status \<lparr>p_id = 1, p_requester = ''Anonyme'', p_content = ''Sante'',
          p_created = ''2024-01-05'', p_status = ''answered''\<rparr> = ''open''
      \<or> p_status \<lparr>p_id = 1, p_requester = ''Anonyme'', p_content = ''Sante'',
          p_created = ''2024-01-05'', p_status = ''answered''\<rparr> = ''answered'')"
proof -
  have r1: "reachable sample_submitted"
    by (rule reachable.run [OF reachable.start sample_run_submit])
  have r2: "reachable sample_answered"
    by (rule reachable.run [OF r1 sample_run_answer])
  have h: "prayers sample_answered = Some \<lparr>rows =
        [\<lparr>p_id = 1, p_requester = ''Anonyme'', p_content = ''Sante'',
          p_created = ''2024-01-05'', p_status = ''answered''\<rparr>], seq = 1\<rparr>"
    by (simp add: sample_answered_def)
  have m: "\<lparr>p_id = 1, p_requester = ''Anonyme'', p_content = ''Sante'',
          p_created = ''2024-01-05'', p_status = ''answered''\<rparr>
        \<in> set (rows \<lparr>rows =
        [\<lparr>p_id = 1, p_requester = ''Anonyme'', p_content = ''Sante'',
          p_created = ''2024-01-05'', p_status = ''answered''\<rparr>], seq = 1\<rparr>)"
    by simp
  from status_open_or_answered [OF r2 h m] r2 h show ?thesis by blast
qed

subsection \<open>The attendance rate of the last 30 days\<close>

text \<open>
  What the page computes. The filter of the metric has a lower bound only: it keeps the
  records dated at or after the current time minus 30 days. When all dates can be read:
  if no record is kept the metric is N/A, and not 0; otherwise it is the mean of the
  present flags of the records kept, as a percentage. On a table with no record dated
  after the current time this is the rate of the specification, whose window ends at the
  current time.
\<close>

lemma attendance_rate_30_lower_bound_only:
  assumes "those (map (\<lambda>r. to_datetime (v_attend_date r)) df) = Some ts"
  shows "(filter (\<lambda>tr. now - 30 * ns_per_day \<le> fst tr) (zip ts df) = [] \<longrightarrow>
            attendance_rate_30 now df = NA)
    \<and> (filter (\<lambda>tr. now - 30 * ns_per_day \<le> fst tr) (zip ts df) \<noteq> [] \<longrightarrow>
            attendance_rate_30 now df =
              Taux (mean (map (\<lambda>tr. v_present (snd tr))
                      (filter (\<lambda>tr. now - 30 * ns_per_day \<le> fst tr) (zip ts df))) * 100))
    \<and> (list_all (\<lambda>t. t \<le> now) ts \<longrightarrow>
            attendance_rate_30 now df = spec_attendance_rate 30 now df)"
proof -
  let ?W = "filter (\<lambda>tr. now - 30 * ns_per_day \<le> fst tr) (zip ts df)"
  have code: "attendance_rate_30 now df =
      (if ?W = [] then NA else Taux (mean (map (\<lambda>tr. v_present (snd tr)) ?W) * 100))"
  proof (cases df)
    case Nil
    then show ?thesis by (simp add: attendance_rate_30_def)
  next
    case (Cons r rs)
    then show ?thesis using assms
      by (simp add: attendance_rate_30_def Let_def comp_def del: those.simps)
  qed
  have spec: "list_all (\<lambda>t. t \<le> now) ts \<Longrightarrow>
      spec_attendance_rate 30 now df =
        (if ?W = [] then NA else Taux (mean (map (\<lambda>tr. v_present (snd tr)) ?W) * 100))"
  proof -
    assume past: "list_all (\<lambda>t. t \<le> now) ts"
    have "filter (\<lambda>tr. in_trailing_window 30 now (fst tr)) (zip ts df) = ?W"
    proof (rule filter_cong [OF refl])
      fix tr assume "tr \<in> set (zip ts df)"
      then have "fst tr \<in> set ts"
        using set_zip_leftD [of "fst tr" "snd tr" ts df] by simp
      with past have "fst tr \<le> now" by (simp add: list_all_iff)
      then show "in_trailing_window 30 now (fst tr) = (now - 30 * ns_per_day \<le> fst tr)"
        by (simp add: in_trailing_window_def)
    qed
    then show ?thesis using assms
      by (simp add: spec_attendance_rate_def Let_def comp_def del: those.simps)
  qed
  from code spec show ?thesis by simp
qed

lemma attendance_rate_30_examples:
  "attendance_rate_30 sample_now sample_old = NA
   \<and> attendance_rate_30 sample_now sample_recent = Taux 50
   \<and> attendance_rate_30 sample_now sample_recent = spec_attendance_rate 30 sample_now sample_recent"
proof -
  have h1: "those (map (\<lambda>r. to_datetime (v_attend_date r)) sample_old)
      = Some [1698796800000000000]"
    by code_simp
  have w1: "filter (\<lambda>tr. sample_now - 30 * ns_per_day \<le> fst tr)
      (zip [1698796800000000000] sample_old) = []"
    by code_simp
  have h2: "those (map (\<lambda>r. to_datetime (v_attend_date r)) sample_recent)
      = Some [1698796800000000000, 1704153600000000000, 1704153600000000000]"
    by code_simp
  have w2: "filter (\<lambda>tr. sample_now - 30 * ns_per_day \<le> fst tr)
      (zip [1698796800000000000, 1704153600000000000, 1704153600000000000] sample_recent)
      = [(1704153600000000000, sample_recent ! 1), (1704153600000000000, sample_recent ! 2)]"
    by code_simp
  have p2: "list_all (\<lambda>t. t \<le> sample_now)
      [1698796800000000000, 1704153600000000000, 1704153600000000000]"
    by code_simp
  have m2: "mean (map (\<lambda>tr. v_present (snd tr))
      [(1704153600000000000 :: int, sample_recent ! 1), (1704153600000000000, sample_recent ! 2)]) * 100 = 50"
    by (simp add: mean_def sample_recent_def)
  from attendance_rate_30_lower_bound_only [OF h1, of sample_now] w1
  have a: "attendance_rate_30 sample_now sample_old = NA" by blast
  from attendance_rate_30_lower_bound_only [OF h2, of sample_now] w2 m2
  have b: "attendance_rate_30 sample_now sample_recent = Taux 50" by simp
  from attendance_rate_30_lower_bound_only [OF h2, of sample_now] p2
  have c: "attendance_rate_30 sample_now sample_recent = spec_attendance_rate 30 sample_now sample_recent"
    by blast
  from a b c show ?thesis by blast
qed

text \<open>
  Claim C3: when no record lies in the trailing window of 30 days that ends at the
  current time, the metric is N/A and not 0. The comment of the code asks for the same
  ("average attendance over last 30 days"), but its filter lets records dated after the
  current time through. Here a member is added and marked absent for the day after the
  current one, through the pages; the attendance view then holds this one record; the
  window of the claim is empty and the specification's rate is N/A, while the page
  shows the rate 0.
\<close>

theorem future_record_counted_in_30_day_rate:
  "run_all sample_future_events no_database = Inr sample_future_db
   \<and> get_attendance_df sample_future_db = Inr [sample_future]
   \<and> spec_attendance_rate 30 sample_now [sample_future] = NA
   \<and> attendance_rate_30 sample_now [sample_future] = Taux 0
   \<and> vue_d_ensemble sample_now sample_future_db = Inr (1, 0, Taux 0, Some [((2024, 1, 6), 0)])"
  by code_simp

subsection \<open>The prayer list: most recent first, ties in insertion order\<close>

lemma mset_insert_desc: "mset (insert_desc x ys) = add_mset x (mset ys)"
  by (induction ys) auto

lemma mset_order_by_created_desc: "mset (order_by_created_desc rs) = mset rs"
  by (induction rs) (auto simp: order_by_created_desc_def mset_insert_desc)

lemma set_insert_desc: "set (insert_desc x ys) = insert x (set ys)"
  by (induction ys) auto

lemma sorted_insert_desc:
  "sorted_wrt (\<lambda>a b. p_created b \<le> p_created a) ys \<Longrightarrow>
     sorted_wrt (\<lambda>a b. p_created b \<le> p_created a) (insert_desc x ys)"
  by (induction ys) (auto simp: set_insert_desc)

lemma sorted_order_by_created_desc:
  "sorted_wrt (\<lambda>a b. p_created b \<le> p_created a) (order_by_created_desc rs)"
  by (induction rs) (auto simp: order_by_created_desc_def sorted_insert_desc)

lemma filter_insert_desc:
  "filter (\<lambda>r. p_created r = k) (insert_desc x ys) =
     (if p_created x = k then x # filter (\<lambda>r. p_created r = k) ys
      else filter (\<lambda>r. p_created r = k) ys)"
  by (induction ys) auto

lemma filter_order_by_created_desc:
  "filter (\<lambda>r. p_created r = k) (order_by_created_desc rs) = filter (\<lambda>r. p_created r = k) rs"
  by (induction rs) (auto simp: order_by_created_desc_def filter_insert_desc)

lemma tie_order_insert_desc:
  "sorted_wrt tie_order ys \<Longrightarrow> list_all (\<lambda>y. p_id x < p_id y) ys \<Longrightarrow>
     sorted_wrt tie_order (insert_desc x ys)"
proof (induction ys)
  case Nil
  then show ?case by simp
next
  case (Cons y ys)
  show ?case
  proof (cases "p_created y \<le> p_created x")
    case True
    have "tie_order x z" if "z \<in> set (y # ys)" for z
    proof -
      from that Cons.prems(1) have "p_created z \<le> p_created y"
        by (auto simp: tie_order_def)
      with True have "p_created z \<le> p_created x" by auto
      moreover from that Cons.prems(2) have "p_id x < p_id z"
        by (auto simp: list_all_iff)
      ultimately show ?thesis by (auto simp: tie_order_def)
    qed
    with True Cons.prems(1) show ?thesis by simp
  next
    case False
    then have "p_created x < p_created y" by (rule not_le_imp_less)
    then have "tie_order y x" by (simp add: tie_order_def)
    moreover from Cons have "sorted_wrt tie_order (insert_desc x ys)" by simp
    ultimately show ?thesis using False Cons.prems(1) by (auto simp: set_insert_desc)
  qed
qed

lemma tie_order_order_by_created_desc:
  "sorted_wrt (<) (map p_id rs) \<Longrightarrow> sorted_wrt tie_order (order_by_created_desc rs)"
proof (induction rs)
  case Nil
  then show ?case by (simp add: order_by_created_desc_def)
next
  case (Cons r rs)
  from Cons.prems have "list_all (\<lambda>y. p_id r < p_id y) rs"
    by (auto simp: list_all_iff)
  then have "list_all (\<lambda>y. p_id r < p_id y) (order_by_created_desc rs)"
    using mset_order_by_created_desc [of rs] by (metis list_all_iff mset_eq_setD)
  moreover from Cons have "sorted_wrt tie_order (order_by_created_desc rs)" by simp
  ultimately have "sorted_wrt tie_order (insert_desc r (order_by_created_desc rs))"
    by (intro tie_order_insert_desc)
  then show ?case by (simp add: order_by_created_desc_def)
qed

lemma sorted_ids_snoc:
  "sorted_wrt (<) ids \<Longrightarrow> sorted_wrt (<) (ids @ [next_rowid ids s])"
  by (simp add: sorted_wrt_append next_rowid_fresh)

lemma map_p_id_update:
  "map (p_id \<circ> (\<lambda>r. if p_id r = pid then r\<lparr>p_status := s\<rparr> else r)) rs = map p_id rs"
  by (induction rs) auto

lemma ids_init_db: "prayer_ids_increasing d \<Longrightarrow> prayer_ids_increasing (init_db d)"
  by (auto simp: prayer_ids_increasing_def init_db_def create_table_if_not_exists_def
      empty_table_def split: option.splits)

lemma ids_insert_member:
  "execute (InsertMember n p e r j) d = Inr d' \<Longrightarrow> prayer_ids_increasing d \<Longrightarrow>
     prayer_ids_increasing d'"
  by (auto simp: prayer_ids_increasing_def Let_def split: option.splits)

lemma ids_insert_attendance:
  "execute (InsertAttendance m a p n) d = Inr d' \<Longrightarrow> prayer_ids_increasing d \<Longrightarrow>
     prayer_ids_increasing d'"
  by (auto simp: prayer_ids_increasing_def Let_def split: option.splits)

lemma ids_add_prayer:
  "add_prayer today requester content d = Inr d' \<Longrightarrow> prayer_ids_increasing d \<Longrightarrow>
     prayer_ids_increasing d'"
  by (auto simp: add_prayer_def prayer_ids_increasing_def Let_def sorted_ids_snoc
      split: option.splits)

lemma ids_update:
  "update_prayer_status pid s d = Inr d' \<Longrightarrow> prayer_ids_increasing d \<Longrightarrow>
     prayer_ids_increasing d'"
  by (auto simp: update_prayer_status_def prayer_ids_increasing_def map_p_id_update
      split: option.splits)

lemma ids_prayer_buttons:
  "prayer_buttons clicked ps d = Inr d' \<Longrightarrow> prayer_ids_increasing d \<Longrightarrow>
     prayer_ids_increasing d'"
  by (induction ps) (auto split: if_splits intro: ids_update)

lemma ids_prayer_form:
  "prayer_form today requester content sub d = Inr (d', n) \<Longrightarrow> prayer_ids_increasing d \<Longrightarrow>
     prayer_ids_increasing d'"
  by (auto simp: prayer_form_def split: if_splits sum.splits intro: ids_add_prayer)

lemma ids_reinitialiser:
  "reinitialiser reset confirm d = Inr (d', n) \<Longrightarrow> prayer_ids_increasing d \<Longrightarrow>
     prayer_ids_increasing d'"
  by (auto simp: reinitialiser_def prayer_ids_increasing_def init_db_def
      create_table_if_not_exists_def empty_table_def split: if_splits)

lemma ids_page: "page ev d = Inr d' \<Longrightarrow> prayer_ids_increasing d \<Longrightarrow> prayer_ids_increasing d'"
proof (cases ev)
  case (Vue_d_ensemble now)
  assume "page ev d = Inr d'" "prayer_ids_increasing d"
  with Vue_d_ensemble show ?thesis by (auto dest: map_sum_const_Inr)
next
  case (Membres today name phone email role submitted)
  assume "page ev d = Inr d'" "prayer_ids_increasing d"
  with Membres show ?thesis
    by (auto simp: add_member_form_def add_member_def split: if_splits sum.splits prod.splits
        dest!: map_sum_const_Inr intro: ids_insert_member)
next
  case (Presences member_choice present attend_date remark submit_att)
  assume "page ev d = Inr d'" "prayer_ids_increasing d"
  with Presences show ?thesis
    by (auto simp: attendance_form_def add_attendance_def split: if_splits sum.splits
        intro: ids_insert_attendance)
next
  case (Priere today requester content sub clicked)
  assume "page ev d = Inr d'" "prayer_ids_increasing d"
  with Priere show ?thesis
    by (auto simp: priere_page_def split: sum.splits prod.splits
        dest: ids_prayer_form ids_prayer_buttons)
next
  case (Parametres export reset confirm)
  assume "page ev d = Inr d'" "prayer_ids_increasing d"
  with Parametres show ?thesis
    by (auto split: sum.splits dest!: map_sum_fst_Inr dest: ids_reinitialiser)
qed

text \<open>
  In every reachable state the prayers table holds its rows in ascending order of their
  ids: the order of the table is the order of insertion, and no two rows share an id.
\<close>

lemma reachable_prayer_ids_increasing: "reachable d \<Longrightarrow> prayer_ids_increasing d"
proof (induction rule: reachable.induct)
  case start
  show ?case by (simp add: prayer_ids_increasing_def no_database_def)
next
  case (run d ev d')
  from run.IH have "prayer_ids_increasing (init_db d)" by (rule ids_init_db)
  with run.hyps(2) show ?case unfolding script_def by (blast intro: ids_page)
qed

lemma reachable_prayer_ids_distinct:
  "reachable d \<Longrightarrow> prayers d = Some t \<Longrightarrow> distinct (map p_id (rows t))"
  by (auto dest: reachable_prayer_ids_increasing simp: prayer_ids_increasing_def
      strict_sorted_iff)

text \<open>
  Claim C8. In every reachable state, \<open>get_prayers_df\<close> returns every row of the prayers
  table, each as often as the table holds it, with the created texts in descending
  order; for texts that are the ISO form of calendar dates this is the order of the dates,
  the most recent first. The rows of one created date stand in the order in which the
  table holds them, which is the order of their insertion: of two rows with equal
  created dates, the one with the smaller id comes first.
\<close>

theorem get_prayers_df_most_recent_first_stable:
  assumes "reachable d" and "prayers d = Some t"
  shows "\<exists>ps. get_prayers_df d = Inr ps
     \<and> mset ps = mset (rows t)
     \<and> sorted_wrt (\<lambda>a b. p_created b \<le> p_created a) ps
     \<and> (\<forall>i j d1 d2. i < j \<and> j < length ps \<and> valid_date d1 \<and> valid_date d2
            \<and> p_created (ps ! i) = isoformat d1 \<and> p_created (ps ! j) = isoformat d2
            \<longrightarrow> d2 \<le> d1)
     \<and> (\<forall>k. filter (\<lambda>r. p_created r = k) ps = filter (\<lambda>r. p_created r = k) (rows t))
     \<and> (\<forall>i j. i < j \<and> j < length ps \<and> p_created (ps ! i) = p_created (ps ! j)
            \<longrightarrow> p_id (ps ! i) < p_id (ps ! j))"
proof -
  from assms have ids: "sorted_wrt (<) (map p_id (rows t))"
    by (auto dest: reachable_prayer_ids_increasing simp: prayer_ids_increasing_def)
  let ?ps = "order_by_created_desc (rows t)"
  have desc: "sorted_wrt (\<lambda>a b. p_created b \<le> p_created a) ?ps"
    by (rule sorted_order_by_created_desc)
  have dates: "d2 \<le> d1"
    if "i < j" "j < length ?ps" "valid_date d1" "valid_date d2"
      "p_created (?ps ! i) = isoformat d1" "p_created (?ps ! j) = isoformat d2"
    for i j d1 d2
  proof -
    from desc that(1,2) have "p_created (?ps ! j) \<le> p_created (?ps ! i)"
      by (simp add: sorted_wrt_iff_nth_less)
    with that(5,6) have "isoformat d2 \<le> isoformat d1" by simp
    with that(3,4) show ?thesis by (simp add: isoformat_le)
  qed
  have "sorted_wrt tie_order ?ps" using ids by (rule tie_order_order_by_created_desc)
  then have ties: "tie_order (?ps ! i) (?ps ! j)" if "i < j" "j < length ?ps" for i j
    using that by (simp add: sorted_wrt_iff_nth_less)
  have "p_id a < p_id b" if "tie_order a b" "p_created a = p_created b" for a b
    using that unfolding tie_order_def by (metis less_irrefl)
  with ties have stable: "\<forall>i j. i < j \<and> j < length ?ps \<and> p_created (?ps ! i) = p_created (?ps ! j)
            \<longrightarrow> p_id (?ps ! i) < p_id (?ps ! j)"
    by blast
  from dates have recent: "\<forall>i j d1 d2. i < j \<and> j < length ?ps \<and> valid_date d1 \<and> valid_date d2
            \<and> p_created (?ps ! i) = isoformat d1 \<and> p_created (?ps ! j) = isoformat d2
            \<longrightarrow> d2 \<le> d1"
    by blast
  from assms(2) desc stable recent show ?thesis
    by (simp add: get_prayers_df_def mset_order_by_created_desc filter_order_by_created_desc)
qed

lemma sample_run_second:
  "script (Priere (2024, 1, 5) ''Bob'' ''Examens'' True None) sample_submitted = Inr sample_prayers"
  by code_simp

lemma sample_run_third:
  "script (Priere (2024, 1, 6) ''Chloe'' ''Voyage'' True None) sample_prayers = Inr sample_three"
  by code_simp

lemma reachable_sample_three: "reachable sample_three"
proof -
  have "reachable sample_submitted"
    by (rule reachable.run [OF reachable.start sample_run_submit])
  then have "reachable sample_prayers"
    by (rule reachable.run [OF _ sample_run_second])
  then show ?thesis
    by (rule reachable.run [OF _ sample_run_third])
qed

theorem get_prayers_df_witness:
  "reachable sample_three
   \<and> get_prayers_df sample_three = Inr
        [\<lparr>p_id = 3, p_requester = ''Chloe'', p_content = ''Voyage'',
          p_created = ''2024-01-06'', p_status = ''open''\<rparr>,
         \<lparr>p_id = 1, p_requester = ''Anonyme'', p_content = ''Sante'',
          p_created = ''2024-01-05'', p_status = ''open''\<rparr>,
         \<lparr>p_id = 2, p_requester = ''Bob'', p_content = ''Examens'',
          p_created = ''2024-01-05'', p_status = ''open''\<rparr>]
   \<and> (\<exists>ps. get_prayers_df sample_three = Inr ps \<and> p_id (ps ! 1) < p_id (ps ! 2))
   \<and> ((2024, 1, 5) :: date) \<le> (2024, 1, 6)"
proof -
  let ?t = "\<lparr>rows =
        [\<lparr>p_id = 1, p_requester = ''Anonyme'', p_content = ''Sante'',
          p_created = ''2024-01-05'', p_status = ''open''\<rparr>,
         \<lparr>p_id = 2, p_requester = ''Bob'', p_content = ''Examens'',
          p_created = ''2024-01-05'', p_status = ''open''\<rparr>,
         \<lparr>p_id = 3, p_requester = ''Chloe'', p_content = ''Voyage'',
          p_created = ''2024-01-06'', p_status = ''open''\<rparr>], seq = 3\<rparr>"
  have h: "prayers sample_three = Some ?t" by (simp add: sample_three_def)
  have v: "get_prayers_df sample_three = Inr
        [\<lparr>p_id = 3, p_requester = ''Chloe'', p_content = ''Voyage'',
          p_created = ''2024-01-06'', p_status = ''open''\<rparr>,
         \<lparr>p_id = 1, p_requester = ''Anonyme'', p_content = ''Sante'',
          p_created = ''2024-01-05'', p_status = ''open''\<rparr>,
         \<lparr>p_id = 2, p_requester = ''Bob'', p_content = ''Examens'',
          p_created = ''2024-01-05'', p_status = ''open''\<rparr>]"
    by code_simp
  have v5: "valid_date (2024, 1, 5)" and v6: "valid_date (2024, 1, 6)" by code_simp+
  have i5: "isoformat (2024, 1, 5) = ''2024-01-05''"
    and i6: "isoformat (2024, 1, 6) = ''2024-01-06''" by code_simp+
  from get_prayers_df_most_recent_first_stable [OF reachable_sample_three h]
  obtain ps where ps: "get_prayers_df sample_three = Inr ps"
    and recent: "\<forall>i j d1 d2. i < j \<and> j < length ps \<and> valid_date d1 \<and> valid_date d2
            \<and> p_created (ps ! i) = isoformat d1 \<and> p_created (ps ! j) = isoformat d2
            \<longrightarrow> d2 \<le> d1"
    and ties: "\<forall>i j. i < j \<and> j < length ps \<and> p_created (ps ! i) = p_created (ps ! j)
            \<longrightarrow> p_id (ps ! i) < p_id (ps ! j)"
    by blast
  from ps v have len: "(1::nat) < 2 \<and> 2 < length ps \<and> p_created (ps ! 1) = p_created (ps ! 2)"
    by auto
  from ties len have a: "p_id (ps ! 1) < p_id (ps ! 2)" by blast
  from ps v i5 i6 have "(0::nat) < 1 \<and> 1 < length ps
      \<and> p_created (ps ! 0) = isoformat (2024, 1, 6) \<and> p_created (ps ! 1) = isoformat (2024, 1, 5)"
    by auto
  with recent v5 v6 have b: "((2024, 1, 5) :: date) \<le> (2024, 1, 6)" by blast
  from a b ps reachable_sample_three v show ?thesis by blast
qed

subsection \<open>The daily attendance rate\<close>

lemma those_length: "those xs = Some ys \<Longrightarrow> length ys = length xs"
  by (induction xs arbitrary: ys) (auto split: option.splits)

text \<open>
  Claim C7. On an attendance view that is not empty and whose dates can all be read, the
  chart data has exactly one row for each calendar date of the view, the rows stand in
  ascending order of the date, and the rate of a date is the mean of the present flags
  of its records, times 100. In particular a date with exactly two records, one present
  and one absent, has the rate 50.
\<close>

theorem daily_attendance_rate_by_date_ascending:
  assumes "those (map (\<lambda>r. parse_date (v_attend_date r)) df) = Some ds" and "df \<noteq> []"
  shows "\<exists>agg. daily_attendance_rate df = Inr (Some agg)
     \<and> sorted_wrt (<) (map fst agg)
     \<and> set (map fst agg) = set ds
     \<and> (\<forall>k \<in> set ds. (k, mean (day_flags ds df k) * 100) \<in> set agg)
     \<and> (\<forall>k. day_flags ds df k = [1, 0] \<or> day_flags ds df k = [0, 1] \<longrightarrow> (k, 50) \<in> set agg)"
proof -
  let ?agg = "map (\<lambda>k. (k, mean (day_flags ds df k) * 100)) (sort (remdups ds))"
  have run: "daily_attendance_rate df = Inr (Some ?agg)"
    using assms by (simp add: daily_attendance_rate_def day_flags_def del: those.simps)
  have keys: "map fst ?agg = sort (remdups ds)"
    by (simp add: comp_def)
  have asc: "sorted_wrt (<) (map fst ?agg)"
    unfolding keys by (simp add: strict_sorted_iff)
  have cover: "set (map fst ?agg) = set ds"
    unfolding keys by simp
  have each: "(k, mean (day_flags ds df k) * 100) \<in> set ?agg" if "k \<in> set ds" for k
    using that by auto
  have half: "(k, 50) \<in> set ?agg"
    if "day_flags ds df k = [1, 0] \<or> day_flags ds df k = [0, 1]" for k
  proof -
    from that have "day_flags ds df k \<noteq> []" by auto
    then have "filter (\<lambda>dr. fst dr = k) (zip ds df) \<noteq> []" by (simp add: day_flags_def)
    then obtain r where "(k, r) \<in> set (zip ds df)"
      by (auto simp: filter_empty_conv)
    then have "k \<in> set ds" by (rule set_zip_leftD)
    moreover from that have "mean (day_flags ds df k) * 100 = 50"
      by (auto simp: mean_def)
    ultimately show ?thesis using each [of k] by simp
  qed
  show ?thesis
  proof (intro exI [of _ ?agg] conjI ballI allI impI)
    show "daily_attendance_rate df = Inr (Some ?agg)" by (rule run)
    show "sorted_wrt (<) (map fst ?agg)" by (rule asc)
    show "set (map fst ?agg) = set ds" by (rule cover)
    show "(k, mean (day_flags ds df k) * 100) \<in> set ?agg" if "k \<in> set ds" for k
      using that by (rule each)
    show "(k, 50) \<in> set ?agg"
      if "day_flags ds df k = [1, 0] \<or> day_flags ds df k = [0, 1]" for k
      using that by (rule half)
  qed
qed


lemma run_all_reachable: "reachable d \<Longrightarrow> run_all evs d = Inr d' \<Longrightarrow> reachable d'"
  by (induction evs arbitrary: d) (auto split: sum.splits intro: reachable.run)

lemma sample_run_cell: "run_all sample_events no_database = Inr sample_cell"
  by code_simp

lemma sample_view_week: "get_attendance_df sample_cell = Inr sample_week"
  by code_simp

theorem daily_attendance_rate_witness:
  "daily_attendance_rate sample_week = Inr (Some [((2024, 1, 7), 50), ((2024, 1, 14), 100)])
   \<and> (\<exists>agg. daily_attendance_rate sample_week = Inr (Some agg)
         \<and> sorted_wrt (<) (map fst agg) \<and> ((2024, 1, 7), 50) \<in> set agg
         \<and> ((2024, 1, 14), mean [1] * 100) \<in> set agg)"
proof -
  let ?ds = "[(2024, 1, 14), (2024, 1, 7), (2024, 1, 7)] :: date list"
  have h: "those (map (\<lambda>r. parse_date (v_attend_date r)) sample_week) = Some ?ds"
    by code_simp
  have ne: "sample_week \<noteq> []" by (simp add: sample_week_def)
  have f7: "day_flags ?ds sample_week (2024, 1, 7) = [1, 0]" by code_simp
  have f14: "day_flags ?ds sample_week (2024, 1, 14) = [1]" by code_simp
  have v: "daily_attendance_rate sample_week
      = Inr (Some [((2024, 1, 7), 50), ((2024, 1, 14), 100)])"
    by code_simp
  from daily_attendance_rate_by_date_ascending [OF h ne]
  obtain agg where a: "daily_attendance_rate sample_week = Inr (Some agg)"
    and s: "sorted_wrt (<) (map fst agg)"
    and e: "\<forall>k \<in> set ?ds. (k, mean (day_flags ?ds sample_week k) * 100) \<in> set agg"
    and t: "\<forall>k. day_flags ?ds sample_week k = [1, 0] \<or> day_flags ?ds sample_week k = [0, 1]
              \<longrightarrow> (k, 50) \<in> set agg"
    by blast
  from t f7 have "((2024, 1, 7), 50) \<in> set agg" by blast
  moreover from e f14 have "((2024, 1, 14), mean [1] * 100) \<in> set agg" by auto
  ultimately show ?thesis using a s v by blast
qed

subsection \<open>The archive of the three exports\<close>

lemma init_db_tables:
  "\<exists>tm ta tp. members (init_db d) = Some tm \<and> attendance (init_db d) = Some ta
     \<and> prayers (init_db d) = Some tp"
  by (simp add: init_db_def create_table_if_not_exists_def split: option.splits)

text \<open>
  Claim C10. The export button produces one archive with exactly three entries, named
  membres.csv, presences.csv and prayers.csv in this order, whose contents are the CSV
  texts of the three views read at the top of the page: the members table, the
  attendance records joined with the member names, and the prayer list. The export is
  all or nothing: either reading a view fails and there is no archive, or the archive
  has its three entries; in a run of the script, after \<open>init_db\<close>, it always has them.
\<close>

theorem export_zip_three_entries_or_none:
  "(get_members_df d = Inr ms \<and> get_attendance_df d = Inr vs \<and> get_prayers_df d = Inr ps \<longrightarrow>
      export_zip True d = Inr (Some
        [(''membres.csv'', to_csv (members_frame ms)),
         (''presences.csv'', to_csv (attendance_frame vs)),
         (''prayers.csv'', to_csv (prayers_frame ps))]))
   \<and> ((\<exists>e. export_zip True d = Inl e)
      \<or> (\<exists>a b c. export_zip True d = Inr (Some
            [(''membres.csv'', a), (''presences.csv'', b), (''prayers.csv'', c)])))
   \<and> (\<exists>a b c. export_zip True (init_db d) = Inr (Some
            [(''membres.csv'', a), (''presences.csv'', b), (''prayers.csv'', c)]))"
proof (intro conjI impI)
  assume "get_members_df d = Inr ms \<and> get_attendance_df d = Inr vs \<and> get_prayers_df d = Inr ps"
  then show "export_zip True d = Inr (Some
        [(''membres.csv'', to_csv (members_frame ms)),
         (''presences.csv'', to_csv (attendance_frame vs)),
         (''prayers.csv'', to_csv (prayers_frame ps))])"
    by (simp add: export_zip_def)
next
  show "(\<exists>e. export_zip True d = Inl e)
      \<or> (\<exists>a b c. export_zip True d = Inr (Some
            [(''membres.csv'', a), (''presences.csv'', b), (''prayers.csv'', c)]))"
    by (simp add: export_zip_def split: sum.splits)
next
  from init_db_tables [of d] obtain tm ta tp
    where "members (init_db d) = Some tm" "attendance (init_db d) = Some ta"
      "prayers (init_db d) = Some tp"
    by blast
  then show "\<exists>a b c. export_zip True (init_db d) = Inr (Some
            [(''membres.csv'', a), (''presences.csv'', b), (''prayers.csv'', c)])"
    by (simp add: export_zip_def get_members_df_def get_attendance_df_def get_prayers_df_def)
qed

theorem export_zip_witness:
  "export_zip True sample_cell = Inr (Some
     [(''membres.csv'', to_csv (members_frame
         [\<lparr>m_id = 1, m_name = ''Alice'', m_phone = [], m_email = [], m_role = ''Leader'',
           m_joined = ''2024-01-01''\<rparr>,
          \<lparr>m_id = 2, m_name = ''Bob'', m_phone = [], m_email = [], m_role = ''Membre'',
           m_joined = ''2024-01-01''\<rparr>])),
      (''presences.csv'', to_csv (attendance_frame sample_week)),
      (''prayers.csv'', to_csv (prayers_frame []))])
   \<and> to_csv (attendance_frame sample_week) =
       ''id,member_id,member_name,attend_date,present,note'' @ [newline]
       @ ''1,1,Alice,2024-01-14,1,'' @ [newline]
       @ ''2,1,Alice,2024-01-07,1,'' @ [newline]
       @ ''3,2,Bob,2024-01-07,0,'' @ [newline]"
proof -
  have m: "get_members_df sample_cell = Inr
         [\<lparr>m_id = 1, m_name = ''Alice'', m_phone = [], m_email = [], m_role = ''Leader'',
           m_joined = ''2024-01-01''\<rparr>,
          \<lparr>m_id = 2, m_name = ''Bob'', m_phone = [], m_email = [], m_role = ''Membre'',
           m_joined = ''2024-01-01''\<rparr>]"
    by code_simp
  have p: "get_prayers_df sample_cell = Inr []" by code_simp
  have t: "to_csv (attendance_frame sample_week) =
       ''id,member_id,member_name,attend_date,present,note'' @ [newline]
       @ ''1,1,Alice,2024-01-14,1,'' @ [newline]
       @ ''2,1,Alice,2024-01-07,1,'' @ [newline]
       @ ''3,2,Bob,2024-01-07,0,'' @ [newline]"
    by code_simp
  from export_zip_three_entries_or_none [of sample_cell _ sample_week "[]"] m sample_view_week p t
  show ?thesis by blast
qed

subsection \<open>Round trip of the members export\<close>

lemma member_of_fields_cells: "member_of_fields (map cell_text (member_cells m)) = Some m"
  by (simp add: member_of_fields_def member_cells_def cell_text_def str_of_nat_not_Nil
      digits_str_of_nat nat_of_str_of_nat)

lemma those_map_Some: "(\<And>x. f (g x) = Some x) \<Longrightarrow> those (map (\<lambda>x. f (g x)) xs) = Some xs"
  by (induction xs) auto

text \<open>
  The scanner on what the writer produces: inside a field, at the end of a field, over a
  line and over the whole text.
\<close>

lemma scan_unquoted:
  "\<not> list_ex special s \<Longrightarrow>
     foldl csv_step (Unquoted, f, fs, rs) s = (Unquoted, f @ s, fs, rs)"
  by (induction s arbitrary: f) (auto simp: special_def)

lemma scan_quoted:
  "foldl csv_step (Quoted, f, fs, rs) (double_quotes s) = (Quoted, f @ s, fs, rs)"
  by (induction s arbitrary: f) auto


lemma scan_field_comma:
  assumes "m = FieldStart \<or> (m = RowStart \<and> fs = [])"
  shows "csv_step (foldl csv_step (m, f, fs, rs) (csv_field s)) comma
     = (FieldStart, [], fs @ [s], rs)"
proof (cases "needs_quote s")
  case True
  from assms have "csv_step (m, f, fs, rs) dquote = (Quoted, [], fs, rs)" by auto
  with True show ?thesis by (simp add: csv_field_def scan_quoted)
next
  case False
  show ?thesis
  proof (cases s)
    case Nil
    with False assms show ?thesis by (auto simp: csv_field_def)
  next
    case (Cons c cs)
    with False have c: "\<not> special c" and cs: "\<not> list_ex special cs"
      by (simp_all add: needs_quote_def)
    from c assms have "csv_step (m, f, fs, rs) c = (Unquoted, [c], fs, rs)"
      by (auto simp: special_def)
    with False Cons cs show ?thesis by (simp add: csv_field_def scan_unquoted)
  qed
qed

lemma scan_field_newline:
  assumes "m = FieldStart \<or> (m = RowStart \<and> fs = [] \<and> s \<noteq> [])"
  shows "csv_step (foldl csv_step (m, f, fs, rs) (csv_field s)) newline
     = (RowStart, [], [], rs @ [fs @ [s]])"
proof (cases "needs_quote s")
  case True
  from assms have "csv_step (m, f, fs, rs) dquote = (Quoted, [], fs, rs)" by auto
  with True show ?thesis by (simp add: csv_field_def scan_quoted)
next
  case False
  show ?thesis
  proof (cases s)
    case Nil
    with False assms show ?thesis by (auto simp: csv_field_def)
  next
    case (Cons c cs)
    with False have c: "\<not> special c" and cs: "\<not> list_ex special cs"
      by (simp_all add: needs_quote_def)
    from c assms have "csv_step (m, f, fs, rs) c = (Unquoted, [c], fs, rs)"
      by (auto simp: special_def)
    with False Cons cs show ?thesis by (simp add: csv_field_def scan_unquoted)
  qed
qed

lemma scan_fields:
  "csv_step (foldl csv_step (FieldStart, f, fs, rs)
       (join_fields (csv_field g # map csv_field gs))) newline
     = (RowStart, [], [], rs @ [fs @ g # gs])"
proof (induction gs arbitrary: g fs f)
  case Nil
  show ?case by (simp add: scan_field_newline)
next
  case (Cons h hs)
  show ?case by (simp add: scan_field_comma Cons.IH)
qed

lemma scan_line:
  "foldl csv_step (RowStart, f, [], rs) (csv_line row) = (RowStart, [], [], rs @ [row])"
proof (cases row)
  case Nil
  then show ?thesis by (simp add: csv_line_def)
next
  case (Cons g gs)
  show ?thesis
  proof (cases gs)
    case Nil
    show ?thesis
    proof (cases "g = []")
      case True
      with Cons Nil show ?thesis by (simp add: csv_line_def)
    next
      case False
      with Cons Nil show ?thesis by (simp add: csv_line_def scan_field_newline)
    qed
  next
    case (Cons h hs)
    with \<open>row = g # gs\<close> show ?thesis
      by (simp add: csv_line_def scan_field_comma scan_fields)
  qed
qed

lemma scan_lines:
  "foldl csv_step (RowStart, [], [], rs) (concat (map csv_line ls)) = (RowStart, [], [], rs @ ls)"
proof (induction ls arbitrary: rs)
  case Nil
  show ?case by simp
next
  case (Cons l ls)
  show ?case by (simp add: scan_line Cons.IH)
qed

lemma read_csv_lines: "read_csv (concat (map csv_line ls)) = Some ls"
  using scan_lines [of "[]" ls] by (simp add: read_csv_def csv_finish_def)

lemma read_csv_to_csv:
  "read_csv (to_csv fr) = Some (columns fr # map (map cell_text) (cells fr))"
  unfolding to_csv_def by (rule read_csv_lines)

text \<open>
  Claim C9. For every list of member rows, the CSV text of the members view, read back,
  has the header of the view followed by one record for each row, and gives back the
  rows themselves: the same number of rows with the same values in every column. So
  does the text that the members page offers for download.
\<close>

theorem members_csv_round_trip:
  "read_members_csv (csv_from_df (members_frame ms)) = Some ms
   \<and> read_csv (csv_from_df (members_frame ms))
       = Some (members_columns # map (\<lambda>m. map cell_text (member_cells m)) ms)
   \<and> (membres_download d = Inr (Some csv) \<longrightarrow>
        (\<exists>view. get_members_df d = Inr view \<and> read_members_csv csv = Some view))"
proof -
  have trip: "read_members_csv (csv_from_df (members_frame xs)) = Some xs
     \<and> read_csv (csv_from_df (members_frame xs))
       = Some (members_columns # map (\<lambda>m. map cell_text (member_cells m)) xs)" for xs
  proof -
    have "those (map (\<lambda>m. member_of_fields (map cell_text (member_cells m))) xs) = Some xs"
      by (rule those_map_Some) (rule member_of_fields_cells)
    then show ?thesis
      by (simp add: read_members_csv_def csv_from_df_def read_csv_to_csv members_frame_def
          comp_def)
  qed
  have "\<exists>view. get_members_df d = Inr view \<and> read_members_csv csv = Some view"
    if "membres_download d = Inr (Some csv)"
  proof (cases "get_members_df d")
    case (Inl e)
    with that show ?thesis by (simp add: membres_download_def)
  next
    case (Inr view)
    with that have "csv = csv_from_df (members_frame view)"
      by (simp add: membres_download_def split: if_splits)
    with Inr trip [of view] show ?thesis by simp
  qed
  with trip [of ms] show ?thesis by blast
qed

theorem members_csv_round_trip_witness:
  "read_members_csv (csv_from_df (members_frame sample_quoted)) = Some sample_quoted
   \<and> (\<exists>csv view. membres_download sample_cell = Inr (Some csv)
         \<and> get_members_df sample_cell = Inr view \<and> read_members_csv csv = Some view)
   \<and> csv_from_df (members_frame sample_quoted) =
       ''id,name,phone,email,role,joined'' @ [newline]
       @ ''12,'' @ [dquote] @ ''Dupont, Jean'' @ [dquote] @ '',0601,,Visiteur,2024-01-05'' @ [newline]
       @ ''13,'' @ [dquote] @ ''Marie '' @ [dquote, dquote] @ ''Mimi'' @ [dquote, dquote, dquote]
       @ '',,m@x.fr,Membre,2024-01-06'' @ [newline]"
proof -
  have t: "csv_from_df (members_frame sample_quoted) =
       ''id,name,phone,email,role,joined'' @ [newline]
       @ ''12,'' @ [dquote] @ ''Dupont, Jean'' @ [dquote] @ '',0601,,Visiteur,2024-01-05'' @ [newline]
       @ ''13,'' @ [dquote] @ ''Marie '' @ [dquote, dquote] @ ''Mimi'' @ [dquote, dquote, dquote]
       @ '',,m@x.fr,Membre,2024-01-06'' @ [newline]"
    by code_simp
  have "\<exists>csv. membres_download sample_cell = Inr (Some csv)"
    by (simp add: membres_download_def get_members_df_def sample_cell_def)
  then obtain csv where dl: "membres_download sample_cell = Inr (Some csv)" ..
  with members_csv_round_trip [of sample_quoted sample_cell csv]
  have "\<exists>view. get_members_df sample_cell = Inr view \<and> read_members_csv csv = Some view"
    by blast
  with dl members_csv_round_trip [of sample_quoted sample_cell csv] t show ?thesis by blast
qed

end
